theory Spec2Isabelle
  imports Main "HOL-Library.AList" "HOL-Library.Multiset"
begin

section \<open>InfoDash: daily-summary generation and archival\<close>

text \<open>
  A shallow embedding of the daily-summary subsystem of InfoDash: the market calendar
  (\<^verbatim>\<open>isMarketOpen\<close>, server and browser copies), the summary store
  (\<^verbatim>\<open>saveDailySummary\<close>, \<^verbatim>\<open>loadDailySummary\<close>, the history route), the section
  parser, the two completion clients and the orchestrators of the scheduled and of the
  manual path. Asynchronous calls are run to completion one after the other; whatever
  the outside world answers (clock, file system, HTTP replies) is an explicit argument.
\<close>

subsection \<open>Strings\<close>

text \<open>
  JavaScript strings are modelled as \<^typ>\<open>string\<close>, one \<^typ>\<open>char\<close> per code unit
  below 256. \<^verbatim>\<open>String.prototype.startsWith\<close>, \<^verbatim>\<open>endsWith\<close> and \<^verbatim>\<open>includes\<close>
  (\<open>includes_str\<close>, the plain name being reserved):
\<close>

definition startsWith :: "string \<Rightarrow> string \<Rightarrow> bool" where
  "startsWith s p = (take (length p) s = p)"

definition endsWith :: "string \<Rightarrow> string \<Rightarrow> bool" where
  "endsWith s p = (length p \<le> length s \<and> drop (length s - length p) s = p)"

fun includes_str :: "string \<Rightarrow> string \<Rightarrow> bool" where
  "includes_str [] p = (p = [])"
| "includes_str (c # cs) p = (startsWith (c # cs) p \<or> includes_str cs p)"

text \<open>A string is truthy when it is not empty; a missing property is \<open>None\<close>.\<close>

definition truthy :: "string option \<Rightarrow> bool" where
  "truthy v = (case v of None \<Rightarrow> False | Some s \<Rightarrow> s \<noteq> [])"

text \<open>
  \<^verbatim>\<open>String.prototype.trim\<close> removes white space and line terminators at both ends;
  below 256 these are the code units 9 to 13, 32 and 160.
\<close>

definition isWhiteSpace :: "char \<Rightarrow> bool" where
  "isWhiteSpace c = (of_char c \<in> {9, 10, 11, 12, 13, 32, 160 :: nat})"

definition trim :: "string \<Rightarrow> string" where
  "trim s = rev (dropWhile isWhiteSpace (rev (dropWhile isWhiteSpace s)))"

text \<open>\<^verbatim>\<open>toUpperCase\<close> on the letters a to z (other code units are left as they are).\<close>

definition upperChar :: "char \<Rightarrow> char" where
  "upperChar c = (if 97 \<le> (of_char c :: nat) \<and> (of_char c :: nat) \<le> 122
                  then char_of (of_char c - (32 :: nat)) else c)"

definition toUpperCase :: "string \<Rightarrow> string" where
  "toUpperCase s = map upperChar s"

subsection \<open>Market calendar\<close>

text \<open>
  \<^verbatim>\<open>etNow\<close> is the wall clock of America/New\_York as a \<^verbatim>\<open>Date\<close>: the getters
  are the fields, with \<^verbatim>\<open>getMonth\<close> counted from 0; \<^verbatim>\<open>getDay\<close> is computed from
  the calendar date (0 is Sunday), as the runtime does. Years are after 100 AD, where
  \<^verbatim>\<open>new Date(year, month, day)\<close> keeps the year and all quantities of the Easter
  computation are non-negative, so that \<^verbatim>\<open>Math.floor(x / y)\<close> is \<open>div\<close> and
  \<^verbatim>\<open>%\<close> is \<open>mod\<close>.
\<close>

record js_date =
  getFullYear :: int
  getMonth :: int
  getDate :: int
  getHours :: int
  getMinutes :: int

definition days_from_civil :: "int \<Rightarrow> int \<Rightarrow> int \<Rightarrow> int" where
  "days_from_civil y m d =
     (let y' = (if m \<le> 2 then y - 1 else y);
          era = y' div 400;
          yoe = y' - era * 400;
          doy = (153 * (if m > 2 then m - 3 else m + 9) + 2) div 5 + d - 1;
          doe = yoe * 365 + yoe div 4 - yoe div 100 + doy
      in era * 146097 + doe - 719468)"

definition getDay :: "js_date \<Rightarrow> int" where
  "getDay d = (days_from_civil (getFullYear d) (getMonth d + 1) (getDate d) + 4) mod 7"

definition isLeapYear :: "int \<Rightarrow> bool" where
  "isLeapYear y = (if y mod 100 = 0 then y mod 400 = 0 else y mod 4 = 0)"

definition daysInMonth :: "int \<Rightarrow> int \<Rightarrow> int" where
  "daysInMonth y m =
     (if m = 1 then (if isLeapYear y then 29 else 28)
      else if m \<in> {3, 5, 8, 10} then 30 else 31)"

text \<open>Easter Sunday by the "Computus" of \<^verbatim>\<open>isGoodFriday\<close>: (0-based month, day).\<close>

definition easter :: "int \<Rightarrow> int \<times> int" where
  "easter year =
     (let a = year mod 19;
          b = year div 100;
          c = year mod 100;
          d1 = b div 4;
          e = b mod 4;
          f1 = (b + 8) div 25;
          g = (b - f1 + 1) div 3;
          h = (19 * a + b - d1 - g + 15) mod 30;
          i = c div 4;
          k = c mod 4;
          l = (32 + 2 * e + 2 * i - h - k) mod 7;
          m = (a + 11 * h + 22 * l) div 451
      in ((h + l - 7 * m + 114) div 31 - 1, (h + l - 7 * m + 114) mod 31 + 1))"

text \<open>
  \<^verbatim>\<open>goodFriday.setDate(easter.getDate() - 2)\<close>: a day number below 1 rolls over
  into the month before.
\<close>

definition goodFriday :: "int \<Rightarrow> int \<times> int" where
  "goodFriday year =
     (case easter year of (month, day) \<Rightarrow>
        if 1 \<le> day - 2 then (month, day - 2)
        else (month - 1, daysInMonth year (month - 1) + (day - 2)))"

text \<open>
  \<^verbatim>\<open>d.toDateString() === goodFriday.toDateString()\<close>: both dates are in the year of
  \<open>d\<close> and the weekday is a function of the date, so the strings agree exactly when
  month and day do.
\<close>

definition isGoodFriday :: "js_date \<Rightarrow> bool" where
  "isGoodFriday d = ((getMonth d, getDate d) = goodFriday (getFullYear d))"

definition isHoliday :: "js_date \<Rightarrow> bool" where
  "isHoliday d =
     (let month = getMonth d; date = getDate d; dayOfWeek = getDay d in
      if (month = 0 \<and> date = 1) \<or>
         (month = 5 \<and> date = 19) \<or>
         (month = 6 \<and> (date = 4 \<or> (date = 3 \<and> dayOfWeek = 5) \<or> (date = 5 \<and> dayOfWeek = 1))) \<or>
         (month = 11 \<and> (date = 25 \<or> (date = 24 \<and> dayOfWeek = 5) \<or> (date = 26 \<and> dayOfWeek = 1)))
      then True
      else if month = 0 \<and> dayOfWeek = 1 \<and> date \<ge> 15 \<and> date \<le> 21 then True
      else if month = 1 \<and> dayOfWeek = 1 \<and> date \<ge> 15 \<and> date \<le> 21 then True
      else if month = 4 \<and> dayOfWeek = 1 \<and> date > 24 then True
      else if month = 8 \<and> dayOfWeek = 1 \<and> date \<le> 7 then True
      else if month = 10 \<and> dayOfWeek = 4 \<and> date \<ge> 22 \<and> date \<le> 28 then True
      else if isGoodFriday d then True
      else False)"

text \<open>The part of both copies of \<^verbatim>\<open>isMarketOpen\<close> after the clock has been read.\<close>

definition inSession :: "js_date \<Rightarrow> bool" where
  "inSession etNow =
     (let day = getDay etNow; hour = getHours etNow; minute = getMinutes etNow in
      if day \<ge> 1 \<and> day \<le> 5 \<and> \<not> isHoliday etNow
      then (if (hour > 9 \<or> (hour = 9 \<and> minute \<ge> 30)) \<and> hour < 16 then True else False)
      else False)"

text \<open>
  \<^verbatim>\<open>isMarketOpen()\<close> of \<^verbatim>\<open>server.js\<close>: no parameter, no instrument; it is the one
  called by \<^verbatim>\<open>saveDailySummary\<close> and by \<^verbatim>\<open>generateAutomatedSummary\<close>.
\<close>

definition isMarketOpen :: "js_date \<Rightarrow> bool" where
  "isMarketOpen etNow = inSession etNow"

text \<open>
  \<^verbatim>\<open>isMarketOpen()\<close> of the browser's finance script: the instrument is the value of
  the input field \<^verbatim>\<open>stockSymbolInput\<close> (\<open>None\<close> when the element is missing).
\<close>

definition isMarketOpen_client :: "string option \<Rightarrow> js_date \<Rightarrow> bool" where
  "isMarketOpen_client symbolInput etNow =
     (let symbol = (case symbolInput of Some v \<Rightarrow> toUpperCase v | None \<Rightarrow> ''^IXIC'') in
      if endsWith symbol ''-USD'' then True else inSession etNow)"

subsection \<open>Summary store\<close>

text \<open>
  \<^verbatim>\<open>summaryData\<close> as the callers of \<^verbatim>\<open>saveDailySummary\<close> build it, and the record
  written to the archive, \<^verbatim>\<open>summaryWithMetadata\<close>: the same fields plus the region
  tags, the time stamp and the market flag. A legacy record has no \<^verbatim>\<open>language\<close>
  and no \<^verbatim>\<open>country\<close> property (\<open>None\<close>).
\<close>

record summary_data =
  news :: string
  trends :: string
  finance :: string
  overall :: string
  generatedAt :: string
  automated :: bool

record stored_summary = summary_data +
  language :: "string option"
  country :: "string option"
  timestamp :: "string option"
  marketOpen :: bool

text \<open>
  The value under a date key is one record or an array of records. The archive is the
  parsed JSON object, its keys in enumeration order; the file is \<open>None\<close> when it is
  missing or does not parse.
\<close>

datatype bucket = Single stored_summary | Many "stored_summary list"

type_synonym archive = "(string \<times> bucket) list"

type_synonym disk = "archive option"

text \<open>
  What one call of \<^verbatim>\<open>saveDailySummary\<close> reads from outside: the two clocks and
  whether the directory and the file can be written.
\<close>

record save_env =
  now_iso :: string
  et_now :: js_date
  write_ok :: bool

definition sameRegion :: "string \<Rightarrow> string \<Rightarrow> stored_summary \<Rightarrow> bool" where
  "sameRegion lang ctry summary = (language summary = Some lang \<and> country summary = Some ctry)"

definition withMetadata :: "save_env \<Rightarrow> summary_data \<Rightarrow> string \<Rightarrow> string \<Rightarrow> stored_summary" where
  "withMetadata env summaryData lang ctry =
     \<lparr>news = news summaryData, trends = trends summaryData, finance = finance summaryData,
      overall = overall summaryData, generatedAt = generatedAt summaryData,
      automated = automated summaryData,
      language = Some lang, country = Some ctry, timestamp = Some (now_iso env),
      marketOpen = isMarketOpen (et_now env)\<rparr>"

text \<open>
  \<^verbatim>\<open>saveDailySummary(summaryData, date, language, country)\<close>: the result and the file
  afterwards. A failure of \<^verbatim>\<open>mkdir\<close> or \<^verbatim>\<open>writeFile\<close> is caught and gives
  \<^verbatim>\<open>false\<close>. (The module variables \<^verbatim>\<open>dailySummary\<close> and \<^verbatim>\<open>lastSummaryDate\<close>, a
  cache that none of the functions below reads, are left out.)
\<close>

definition saveDailySummary ::
  "save_env \<Rightarrow> summary_data \<Rightarrow> string \<Rightarrow> string \<Rightarrow> string \<Rightarrow> disk \<Rightarrow> bool \<times> disk" where
  "saveDailySummary env summaryData date lang ctry file =
     (let summaries = (case file of None \<Rightarrow> [] | Some existingData \<Rightarrow> existingData);
          summaryWithMetadata = withMetadata env summaryData lang ctry;
          summaries' =
            (case map_of summaries date of
               Some (Many arr) \<Rightarrow>
                 AList.update date
                   (Many (filter (\<lambda>summary. \<not> sameRegion lang ctry summary) arr
                          @ [summaryWithMetadata])) summaries
             | Some (Single existingSummary) \<Rightarrow>
                 AList.update date (Many [existingSummary, summaryWithMetadata]) summaries
             | None \<Rightarrow> AList.update date (Single summaryWithMetadata) summaries)
      in if write_ok env then (True, Some summaries') else (False, file))"

text \<open>
  \<^verbatim>\<open>loadDailySummary(date, language, country)\<close>, called with a date; every failure
  to read is caught and gives \<^verbatim>\<open>null\<close>.
\<close>

definition loadDailySummary :: "string \<Rightarrow> string \<Rightarrow> string \<Rightarrow> disk \<Rightarrow> stored_summary option" where
  "loadDailySummary targetDate lang ctry file =
     (case file of
        None \<Rightarrow> None
      | Some summaries \<Rightarrow>
          (case map_of summaries targetDate of
             None \<Rightarrow> None
           | Some (Many arr) \<Rightarrow> List.find (sameRegion lang ctry) arr
           | Some (Single dateSummary) \<Rightarrow>
               if truthy (language dateSummary) \<and> truthy (country dateSummary)
               then (if sameRegion lang ctry dateSummary then Some dateSummary else None)
               else (if lang = ''en'' \<and> ctry = ''US'' then Some dateSummary else None)))"

text \<open>The records kept under a date, whatever the shape of the bucket.\<close>

definition recordsOn :: "string \<Rightarrow> disk \<Rightarrow> stored_summary list" where
  "recordsOn date file =
     (case file of
        None \<Rightarrow> []
      | Some summaries \<Rightarrow>
          (case map_of summaries date of
             None \<Rightarrow> [] | Some (Single s) \<Rightarrow> [s] | Some (Many arr) \<Rightarrow> arr))"

subsection \<open>Completion clients\<close>

text \<open>
  One call of \<^verbatim>\<open>openai.chat.completions.create\<close> resolves with a response, of which
  only \<^verbatim>\<open>choices[0].message.content\<close> is read (\<open>None\<close> when it is missing), or
  rejects with an error message. The service is a function of the model asked for and
  of the number of the attempt.
\<close>

datatype api_reply = Resolves "string option" | Rejects string

type_synonym completion_api = "string \<Rightarrow> nat \<Rightarrow> api_reply"

datatype llm_event = Call string | Wait nat

definition selectedModel :: string where
  "selectedModel = ''z-ai/glm-4.5-air:free''"

definition maxRetries :: nat where
  "maxRetries = 3"

text \<open>
  The loop of \<^verbatim>\<open>generateAutomatedSummary\<close>, from attempt \<open>attempt\<close> on: the text
  returned (\<^verbatim>\<open>null\<close> is \<open>None\<close>) and what the loop did, in order.
\<close>

function automatedAttempts :: "completion_api \<Rightarrow> nat \<Rightarrow> string option \<times> llm_event list" where
  "automatedAttempts api attempt =
     (if attempt \<le> maxRetries then
        (case api selectedModel attempt of
           Resolves content \<Rightarrow>
             if \<not> truthy content
             then (case automatedAttempts api (attempt + 1) of
                     (r, evs) \<Rightarrow> (r, Call selectedModel # evs))
             else (content, [Call selectedModel])
         | Rejects error \<Rightarrow>
             (case automatedAttempts api (attempt + 1) of
                (r, evs) \<Rightarrow>
                  (r, Call selectedModel
                      # (if attempt < maxRetries then [Wait (1000 * attempt)] else []) @ evs)))
      else (None, []))"
  by pat_completeness auto
termination
  by (relation "measure (\<lambda>(api, attempt). maxRetries + 1 - attempt)") auto

declare automatedAttempts.simps [simp del]

definition generateAutomatedSummary :: "completion_api \<Rightarrow> string option \<times> llm_event list" where
  "generateAutomatedSummary api = automatedAttempts api 1"

text \<open>
  \<^verbatim>\<open>callOpenRouterWithRetry(options, retries)\<close>, the client of the chat route.
  \<^verbatim>\<open>[...new Set(fallbackModels)]\<close> keeps the first occurrence of each name.
\<close>

fun uniqueFirst :: "string list \<Rightarrow> string list" where
  "uniqueFirst [] = []"
| "uniqueFirst (x # xs) = x # filter (\<lambda>y. y \<noteq> x) (uniqueFirst xs)"

definition uniqueModels :: "string \<Rightarrow> string list" where
  "uniqueModels model =
     uniqueFirst [model, ''openai/gpt-oss-20b:free'',
                  ''meta-llama/llama-3.3-70b-instruct:free'', ''qwen/qwen3-235b-a22b:free'']"

function openRouterAttempts ::
  "completion_api \<Rightarrow> string \<Rightarrow> nat \<Rightarrow> nat \<Rightarrow> (string + string option) \<times> llm_event list" where
  "openRouterAttempts api model retries attempt =
     (if attempt \<le> retries then
        (let currentModel = uniqueModels model ! min attempt (length (uniqueModels model) - 1) in
         case api currentModel attempt of
           Resolves content \<Rightarrow> (Inr content, [Call currentModel])
         | Rejects error \<Rightarrow>
             if attempt = retries then (Inl error, [Call currentModel])
             else (case openRouterAttempts api model retries (attempt + 1) of
                     (r, evs) \<Rightarrow> (r, Call currentModel # Wait (1000 * (attempt + 1)) # evs)))
      else (Inr None, []))"
  by pat_completeness auto
termination
  by (relation "measure (\<lambda>(api, model, retries, attempt). retries + 1 - attempt)") auto

declare openRouterAttempts.simps [simp del]

definition callOpenRouterWithRetry ::
  "completion_api \<Rightarrow> string \<Rightarrow> (string + string option) \<times> llm_event list" where
  "callOpenRouterWithRetry api model = openRouterAttempts api model 2 0"

text \<open>
  The models asked, in order, and the replies after which the loop of
  \<^verbatim>\<open>generateAutomatedSummary\<close> goes on: a rejected call, or a response without
  content.
\<close>

fun calls :: "llm_event list \<Rightarrow> string list" where
  "calls [] = []"
| "calls (Call model # evs) = model # calls evs"
| "calls (Wait ms # evs) = calls evs"

definition attemptFails :: "api_reply \<Rightarrow> bool" where
  "attemptFails r = (case r of Resolves content \<Rightarrow> \<not> truthy content | Rejects error \<Rightarrow> True)"

subsection \<open>Section parser\<close>

text \<open>
  The four regular expressions of \<^verbatim>\<open>parseAutomatedSummarySections\<close> (and, letter for
  letter, of \<^verbatim>\<open>parseSummarySections\<close> in the browser) have one shape,
  \<^verbatim>\<open>(?:\*\*H\*\*|H:?)(.*?)E\<close> with the flag \<^verbatim>\<open>s\<close>, where \<^verbatim>\<open>E\<close> is a lookahead for
  one of several literals or, for the last section, \<^verbatim>\<open>$\<close>. The matcher of
  \<^verbatim>\<open>String.prototype.match\<close> is followed step by step: start positions from the left;
  at a position the spellings of the header in the order of the alternation, the
  greedy \<^verbatim>\<open>:?\<close> first with the colon; after a spelling the lazy group grows one
  code unit at a time until \<^verbatim>\<open>E\<close> holds, and backtracks to the next spelling when the
  end of the text is reached.
\<close>

definition headerSpellings :: "string \<Rightarrow> string list" where
  "headerSpellings h = [''**'' @ h @ ''**'', h @ '':'', h]"

definition aheadOf :: "string list \<Rightarrow> string \<Rightarrow> bool" where
  "aheadOf literals s = list_ex (startsWith s) literals"

definition atEnd :: "string \<Rightarrow> bool" where
  "atEnd s = (s = [])"

fun lazyUntil :: "(string \<Rightarrow> bool) \<Rightarrow> string \<Rightarrow> string option" where
  "lazyUntil stop [] = (if stop [] then Some [] else None)"
| "lazyUntil stop (c # cs) =
     (if stop (c # cs) then Some [] else map_option ((#) c) (lazyUntil stop cs))"

fun matchHere :: "string list \<Rightarrow> (string \<Rightarrow> bool) \<Rightarrow> string \<Rightarrow> string option" where
  "matchHere [] stop s = None"
| "matchHere (spelling # spellings) stop s =
     (if startsWith s spelling
      then (case lazyUntil stop (drop (length spelling) s) of
              Some captured \<Rightarrow> Some captured
            | None \<Rightarrow> matchHere spellings stop s)
      else matchHere spellings stop s)"

fun matchFirst :: "string list \<Rightarrow> (string \<Rightarrow> bool) \<Rightarrow> string \<Rightarrow> string option" where
  "matchFirst spellings stop [] = matchHere spellings stop []"
| "matchFirst spellings stop (c # cs) =
     (case matchHere spellings stop (c # cs) of
        Some captured \<Rightarrow> Some captured
      | None \<Rightarrow> matchFirst spellings stop cs)"

record sections =
  sec_news :: "string option"
  sec_trends :: "string option"
  sec_finance :: "string option"
  sec_insights :: "string option"

definition parseAutomatedSummarySections :: "string \<Rightarrow> sections" where
  "parseAutomatedSummarySections summaryText =
     \<lparr>sec_news = map_option trim
        (matchFirst (headerSpellings ''NEWS HIGHLIGHTS'')
           (aheadOf [''**TRENDING TOPICS**'', ''TRENDING TOPICS'', ''---'']) summaryText),
      sec_trends = map_option trim
        (matchFirst (headerSpellings ''TRENDING TOPICS'')
           (aheadOf [''**MARKET OVERVIEW**'', ''MARKET OVERVIEW'', ''---'']) summaryText),
      sec_finance = map_option trim
        (matchFirst (headerSpellings ''MARKET OVERVIEW'')
           (aheadOf [''**INFO GENIE**'', ''INFO GENIE'', ''---'']) summaryText),
      sec_insights = map_option trim
        (matchFirst (headerSpellings ''INFO GENIE'') atEnd summaryText)\<rparr>"

definition parseSummarySections :: "string \<Rightarrow> sections" where
  "parseSummarySections summaryText = parseAutomatedSummarySections summaryText"

text \<open>
  Two notions used to state what the parser returns: the number of places at which a
  literal occurs in a text, and the text before the first horizontal rule \<^verbatim>\<open>---\<close>
  (\<open>None\<close> when there is no rule).
\<close>

fun countOccurrences :: "string \<Rightarrow> string \<Rightarrow> nat" where
  "countOccurrences [] p = (if p = [] then 1 else 0)"
| "countOccurrences (c # cs) p =
     (if startsWith (c # cs) p then 1 else 0) + countOccurrences cs p"

fun upToFirstRule :: "string \<Rightarrow> string option" where
  "upToFirstRule [] = None"
| "upToFirstRule (c # cs) =
     (if startsWith (c # cs) ''---'' then Some [] else map_option ((#) c) (upToFirstRule cs))"

subsection \<open>Scheduled path\<close>

text \<open>
  The bundle of \<^verbatim>\<open>collectAutomatedSectionData\<close>: each field is \<^verbatim>\<open>null\<close> (\<open>None\<close>)
  or the collector's value. \<^verbatim>\<open>finance\<close> is an object, kept as the list of its own
  properties, since the guard counts its keys.
\<close>

datatype headline = Headline (h_title: string) (h_description: string) (h_source: string)

datatype topic = Topic (t_title: string) (t_traffic: string)

record quote =
  price :: string
  change :: string
  changePercent :: string
  timeframe :: string

datatype finance_value = Null | Quote quote | Quotes "(string \<times> quote) list"

record section_data =
  sd_news :: "headline list option"
  sd_trends :: "topic list option"
  sd_finance :: "(string \<times> finance_value) list option"

text \<open>
  \<^verbatim>\<open>collectAutomatedFinanceData\<close>. The reply of the bulk route is \<open>None\<close> when the
  request fails or is not ok, else the entries of its JSON object: per symbol an error,
  or the three numbers, each already printed by \<^verbatim>\<open>toFixed(2)\<close> or missing. The
  collector answers \<^verbatim>\<open>null\<close> or an object with the three properties
  \<^verbatim>\<open>nasdaq\<close>, \<^verbatim>\<open>techStocks\<close> and \<^verbatim>\<open>crypto\<close>.
\<close>

datatype bulk_entry = SymbolError string | SymbolQuote "string option" "string option" "string option"

definition orNA :: "string option \<Rightarrow> string" where
  "orNA v = (if truthy v then the v else ''N/A'')"

fun processBulk ::
  "(string \<times> bulk_entry) list \<Rightarrow> quote option \<times> (string \<times> quote) list \<times> (string \<times> quote) list
     \<Rightarrow> quote option \<times> (string \<times> quote) list \<times> (string \<times> quote) list" where
  "processBulk [] financeData = financeData"
| "processBulk ((symbol, SymbolError error) # rest) financeData = processBulk rest financeData"
| "processBulk ((symbol, SymbolQuote p c cp) # rest) (nasdaq, techStocks, crypto) =
     (let processedData =
            \<lparr>price = orNA p, change = orNA c, changePercent = orNA cp, timeframe = ''Current''\<rparr>
      in processBulk rest
           (if symbol = ''^IXIC'' then (Some processedData, techStocks, crypto)
            else if endsWith symbol ''-USD''
            then (nasdaq, techStocks, AList.update symbol processedData crypto)
            else (nasdaq, AList.update symbol processedData techStocks, crypto)))"

definition collectAutomatedFinanceData ::
  "(string \<times> bulk_entry) list option \<Rightarrow> (string \<times> finance_value) list option" where
  "collectAutomatedFinanceData response =
     (case response of
        None \<Rightarrow> None
      | Some data \<Rightarrow>
          (case processBulk data (None, [], []) of
             (nasdaq, techStocks, crypto) \<Rightarrow>
               Some [(''nasdaq'', (case nasdaq of None \<Rightarrow> Null | Some q \<Rightarrow> Quote q)),
                     (''techStocks'', Quotes techStocks),
                     (''crypto'', Quotes crypto)]))"

record region =
  r_language :: string
  r_country :: string
  r_timezone :: string

text \<open>
  What one call of \<^verbatim>\<open>generateSummaryForRegion\<close> reads from outside: the bundle
  collected (\<open>None\<close> when \<^verbatim>\<open>collectAutomatedSectionData\<close> gives \<^verbatim>\<open>null\<close>), the
  completion service, the clock for \<^verbatim>\<open>generatedAt\<close> and what the save reads.
\<close>

record gen_env =
  collected :: "section_data option"
  completion :: completion_api
  generatedAtEDT :: string
  saving :: save_env

text \<open>The line that an attempt writes to the log when it ends.\<close>

datatype gen_log =
    AlreadyExists | NoSectionData | InsufficientData | SummarySaved | SaveFailed | NoValidSummary

definition insufficientCoreData :: "section_data \<Rightarrow> bool" where
  "insufficientCoreData sectionData =
     ((case sd_news sectionData of None \<Rightarrow> True | Some ns \<Rightarrow> length ns = 0) \<and>
      (case sd_finance sectionData of None \<Rightarrow> True | Some props \<Rightarrow> length props = 0))"

definition validSummaryText :: "string option \<Rightarrow> bool" where
  "validSummaryText summaryText =
     (case summaryText of
        None \<Rightarrow> False
      | Some t \<Rightarrow> t \<noteq> [] \<and> \<not> includes_str t ''Error:'' \<and> \<not> includes_str t ''Unable to generate'')"

definition orEmpty :: "string option \<Rightarrow> string" where
  "orEmpty v = (case v of None \<Rightarrow> [] | Some s \<Rightarrow> s)"

text \<open>
  \<^verbatim>\<open>generateSummaryForRegion(region, date)\<close>. No step of the model throws (the
  collectors, the completion client and the store catch their own failures), so the
  outer \<^verbatim>\<open>catch\<close> has no branch here.
\<close>

definition generateSummaryForRegion :: "gen_env \<Rightarrow> region \<Rightarrow> string \<Rightarrow> disk \<Rightarrow> gen_log \<times> disk" where
  "generateSummaryForRegion env region date file =
     (case loadDailySummary date (r_language region) (r_country region) file of
        Some existingSummary \<Rightarrow> (AlreadyExists, file)
      | None \<Rightarrow>
          (case collected env of
             None \<Rightarrow> (NoSectionData, file)
           | Some sectionData \<Rightarrow>
               if insufficientCoreData sectionData then (InsufficientData, file)
               else
                 (let summaryText = fst (generateAutomatedSummary (completion env)) in
                  if validSummaryText summaryText then
                    (let secs = parseAutomatedSummarySections (the summaryText);
                         summaryData =
                           \<lparr>news = orEmpty (sec_news secs), trends = orEmpty (sec_trends secs),
                            finance = orEmpty (sec_finance secs),
                            overall = orEmpty (sec_insights secs),
                            generatedAt = generatedAtEDT env, automated = True\<rparr>
                     in case saveDailySummary (saving env) summaryData date
                               (r_language region) (r_country region) file of
                          (True, file') \<Rightarrow> (SummarySaved, file')
                        | (False, file') \<Rightarrow> (SaveFailed, file'))
                  else (NoValidSummary, file))))"

text \<open>
  The orchestrator \<^verbatim>\<open>AutomatedSummaryGenerator\<close>: its two fields, the constructor and
  the fixed region.
\<close>

record generator =
  isGenerating :: bool
  lastGenerationDate :: "string option"

definition newGenerator :: generator where
  "newGenerator = \<lparr>isGenerating = False, lastGenerationDate = None\<rparr>"

definition theRegion :: region where
  "theRegion = \<lparr>r_language = ''en'', r_country = ''US'', r_timezone = ''America/New_York''\<rparr>"

datatype daily_log =
    AlreadyInProgress | AlreadyGeneratedToday | Completed gen_log | ErrorLogged string

text \<open>
  \<^verbatim>\<open>generateDailySummary()\<close> around any inner stage: the stage returns its log line or
  throws (\<open>Inl\<close>), and leaves the file as it made it. \<open>todayEDT\<close> is the date string
  the invocation reads from the clock. Between the two assignments of
  \<^verbatim>\<open>isGenerating\<close> the invocation is suspended; \<open>inFlight\<close> is the state that another
  trigger sees meanwhile.
\<close>

definition inFlight :: "generator \<Rightarrow> generator" where
  "inFlight g = g\<lparr>isGenerating := True\<rparr>"

definition generateDailySummaryWith ::
  "(disk \<Rightarrow> (string + gen_log) \<times> disk) \<Rightarrow> string \<Rightarrow> generator \<times> disk
     \<Rightarrow> daily_log \<times> generator \<times> disk" where
  "generateDailySummaryWith stage todayEDT st =
     (case st of (g, file) \<Rightarrow>
        if isGenerating g then (AlreadyInProgress, g, file)
        else if lastGenerationDate g = Some todayEDT then (AlreadyGeneratedToday, g, file)
        else
          (case stage file of
             (Inr l, file') \<Rightarrow>
               (Completed l,
                (inFlight g)\<lparr>lastGenerationDate := Some todayEDT, isGenerating := False\<rparr>, file')
           | (Inl error, file') \<Rightarrow>
               (ErrorLogged error, (inFlight g)\<lparr>isGenerating := False\<rparr>, file')))"

definition generateDailySummary ::
  "gen_env \<Rightarrow> string \<Rightarrow> generator \<times> disk \<Rightarrow> daily_log \<times> generator \<times> disk" where
  "generateDailySummary env todayEDT st =
     generateDailySummaryWith
       (\<lambda>file. case generateSummaryForRegion env theRegion todayEDT file of
                  (l, file') \<Rightarrow> (Inr l, file'))
       todayEDT st"

text \<open>
  The first daily trigger, \<^verbatim>\<open>cron.schedule('0 23 * * *', ...)\<close>: its callback calls
  \<^verbatim>\<open>generateDailySummary\<close> and nothing else.
\<close>

definition trigger2300 ::
  "gen_env \<Rightarrow> string \<Rightarrow> generator \<times> disk \<Rightarrow> daily_log \<times> generator \<times> disk" where
  "trigger2300 env todayEDT st = generateDailySummary env todayEDT st"

subsection \<open>Manual path\<close>

text \<open>
  One \<^verbatim>\<open>fetch('/api/chat')\<close> of \<^verbatim>\<open>generateSummary\<close> in the browser: the call (or
  the reading of its body) rejects with a message, or the response is not ok, with its
  status and the text of its body, or it is ok, with the \<^verbatim>\<open>reply\<close> property of its
  JSON body (\<open>None\<close> when missing). The route is a function of the value of
  \<^verbatim>\<open>retryCount\<close> when the call is made: the count grows with every call.
\<close>

datatype fetch_result = FetchRejects string | HttpError nat string | HttpOk "string option"

function showNat :: "nat \<Rightarrow> string" where
  "showNat n = (if n < 10 then [char_of (48 + n)] else showNat (n div 10) @ [char_of (48 + n mod 10)])"
  by pat_completeness auto
termination
  by (relation "measure (\<lambda>n. n)") auto

declare showNat.simps [simp del]

definition httpErrorMessage :: "nat \<Rightarrow> string \<Rightarrow> string" where
  "httpErrorMessage status errorDetails =
     ''HTTP error! status: '' @ showNat status
     @ (if errorDetails \<noteq> [] then '' - '' @ errorDetails else [])"

text \<open>
  The loop of \<^verbatim>\<open>generateSummary\<close>, entered with \<^verbatim>\<open>summaryGenerated\<close> false as
  \<^verbatim>\<open>refreshSummary\<close> leaves it: the text returned and the new value of
  \<^verbatim>\<open>summaryGenerated\<close>. The calls that show and store the text in the page are
  taken not to throw.
\<close>

function chatAttempts :: "(nat \<Rightarrow> fetch_result) \<Rightarrow> nat \<Rightarrow> string option \<Rightarrow> string option \<times> bool" where
  "chatAttempts chat retryCount lastError =
     (if retryCount < maxRetries then
        (case chat retryCount of
           HttpOk reply \<Rightarrow>
             (let result = (if truthy reply then the reply
                            else ''Unable to generate summary at this time.'') in
              if validSummaryText (Some result) then (Some result, True)
              else (Some result, False))
         | HttpError status errorDetails \<Rightarrow>
             if (status = 404 \<or> status = 503) \<and> retryCount + 1 < maxRetries
             then chatAttempts chat (retryCount + 1) lastError
             else chatAttempts chat
                    (if status = 404 \<or> status = 503 then retryCount + 2 else retryCount + 1)
                    (Some (httpErrorMessage status errorDetails))
         | FetchRejects message \<Rightarrow> chatAttempts chat (retryCount + 1) (Some message))
      else
        (Some (if truthy lastError then the lastError
               else ''Error: Unable to generate summary after multiple attempts.''), False))"
  by pat_completeness auto
termination
  by (relation "measure (\<lambda>(chat, retryCount, lastError). maxRetries - retryCount)")
     (auto simp: maxRetries_def)

declare chatAttempts.simps [simp del]

definition generateSummary :: "(nat \<Rightarrow> fetch_result) \<Rightarrow> string option \<times> bool" where
  "generateSummary chat = chatAttempts chat 0 None"

text \<open>
  \<^verbatim>\<open>localStorage\<close>, of which the manual path reads and writes the item
  \<^verbatim>\<open>lastSummaryRefreshDate\<close>; and what one call of \<^verbatim>\<open>refreshSummary\<close> reads from
  outside: the host name of the page, the local date, whether \<^verbatim>\<open>collectSectionData\<close>
  rejects, the chat route, and whether the timer of 60 seconds wins the race against
  the summary job.
\<close>

record local_storage =
  lastSummaryRefreshDate :: "string option"

record refresh_env =
  hostname :: string
  localDate :: string
  collectRejects :: "string option"
  chat :: "nat \<Rightarrow> fetch_result"
  timerFirst :: bool

datatype refresh_notice =
    DailyLimitReached | RefreshedAndSaved | GenerationErrors | TimedOut | UnableToRefresh

definition hasRefreshedToday :: "refresh_env \<Rightarrow> local_storage \<Rightarrow> bool" where
  "hasRefreshedToday env store =
     (if hostname env = ''localhost'' \<or> hostname env = ''127.0.0.1'' then False
      else lastSummaryRefreshDate store = Some (localDate env))"

definition markRefreshedToday :: "refresh_env \<Rightarrow> local_storage \<Rightarrow> local_storage" where
  "markRefreshedToday env store = store\<lparr>lastSummaryRefreshDate := Some (localDate env)\<rparr>"

text \<open>
  The job that \<^verbatim>\<open>refreshSummary\<close> races against the timer: it throws (\<open>Inl\<close>) or shows
  a notice, and leaves the storage as it made it.
\<close>

definition summaryJob :: "refresh_env \<Rightarrow> local_storage \<Rightarrow> (string + refresh_notice) \<times> local_storage" where
  "summaryJob env store =
     (case collectRejects env of
        Some message \<Rightarrow> (Inl message, store)
      | None \<Rightarrow>
          (let summaryText = fst (generateSummary (chat env)) in
           if validSummaryText summaryText
           then (Inr RefreshedAndSaved, markRefreshedToday env store)
           else (Inr GenerationErrors, store)))"

text \<open>
  \<^verbatim>\<open>refreshSummary()\<close>, up to the moment its promise settles. When the timer wins,
  the job is not cancelled; it has not reached \<^verbatim>\<open>markRefreshedToday\<close> by then.
\<close>

definition refreshSummary :: "refresh_env \<Rightarrow> local_storage \<Rightarrow> refresh_notice \<times> local_storage" where
  "refreshSummary env store =
     (if hasRefreshedToday env store then (DailyLimitReached, store)
      else if timerFirst env then (TimedOut, store)
      else
        (case summaryJob env store of
           (Inr notice, store') \<Rightarrow> (notice, store')
         | (Inl message, store') \<Rightarrow>
             (if includes_str message ''timed out'' then TimedOut else UnableToRefresh, store')))"

subsection \<open>History route\<close>

text \<open>
  The entries of \<^verbatim>\<open>/api/summary/history\<close>. A key is skipped when it has more than
  two hyphens or does not match \<^verbatim>\<open>/^\d{4}-\d{2}-\d{2}$/\<close>.
\<close>

record history_entry =
  h_date :: string
  h_timestamp :: "string option"
  h_marketOpen :: bool
  h_language :: string
  h_country :: string
  h_automated :: bool
  hasData :: bool

definition orDefault :: "string option \<Rightarrow> string \<Rightarrow> string" where
  "orDefault v d = (if truthy v then the v else d)"

definition entryOf :: "string \<Rightarrow> stored_summary \<Rightarrow> history_entry" where
  "entryOf date summary =
     \<lparr>h_date = date, h_timestamp = timestamp summary, h_marketOpen = marketOpen summary,
      h_language = orDefault (language summary) ''en'',
      h_country = orDefault (country summary) ''US'',
      h_automated = automated summary,
      hasData = (news summary \<noteq> [] \<or> trends summary \<noteq> [] \<or> finance summary \<noteq> []
                 \<or> overall summary \<noteq> [])\<rparr>"

definition isDigit :: "char \<Rightarrow> bool" where
  "isDigit c = (48 \<le> (of_char c :: nat) \<and> (of_char c :: nat) \<le> 57)"

definition malformedKey :: "string \<Rightarrow> bool" where
  "malformedKey date =
     (includes_str date ''-'' \<and> length (filter (\<lambda>c. c = CHR ''-'') date) + 1 > 3)"

definition matchesDateFormat :: "string \<Rightarrow> bool" where
  "matchesDateFormat date =
     (length date = 10 \<and> list_all isDigit (take 4 date) \<and> date ! 4 = CHR ''-''
      \<and> list_all isDigit (take 2 (drop 5 date)) \<and> date ! 7 = CHR ''-''
      \<and> list_all isDigit (drop 8 date))"

fun flattenEntries :: "archive \<Rightarrow> history_entry list" where
  "flattenEntries [] = []"
| "flattenEntries ((date, summary) # rest) =
     (if malformedKey date then []
      else if \<not> matchesDateFormat date then []
      else (case summary of
              Many arr \<Rightarrow> map (entryOf date) arr
            | Single single \<Rightarrow> [entryOf date single]))
     @ flattenEntries rest"

text \<open>
  \<^verbatim>\<open>new Date(date)\<close> for a key of the format above, as its time value in
  milliseconds, as Node computes it: with a month from 01 to 12 and a day from 01 to 31
  it is midnight UTC of that day, a day beyond the end of its month running over into
  the next month (\<^verbatim>\<open>2024-02-30\<close> is 1 March); with any other month or day the date
  is invalid and its time value \<^verbatim>\<open>NaN\<close> (\<open>None\<close>).
\<close>

definition digitsValue :: "string \<Rightarrow> int" where
  "digitsValue s = foldl (\<lambda>acc c. 10 * acc + (int (of_char c) - 48)) 0 s"

definition dateValue :: "string \<Rightarrow> int option" where
  "dateValue date =
     (if matchesDateFormat date then
        (let y = digitsValue (take 4 date);
             m = digitsValue (take 2 (drop 5 date));
             d = digitsValue (drop 8 date)
         in if 1 \<le> m \<and> m \<le> 12 \<and> 1 \<le> d \<and> d \<le> 31
            then Some (days_from_civil y m d * 86400000) else None)
      else None)"

text \<open>
  The comparator \<^verbatim>\<open>(a, b) => new Date(b.date) - new Date(a.date)\<close>; a result
  \<^verbatim>\<open>NaN\<close> counts as 0 in \<^verbatim>\<open>Array.prototype.sort\<close>.
\<close>

definition compareDates :: "history_entry \<Rightarrow> history_entry \<Rightarrow> int" where
  "compareDates a b =
     (case (dateValue (h_date b), dateValue (h_date a)) of
        (Some tb, Some ta) \<Rightarrow> tb - ta
      | _ \<Rightarrow> 0)"

text \<open>
  \<^verbatim>\<open>Array.prototype.sort\<close> is stable, and for a consistent comparator its result is
  the one stable arrangement in the order of the comparator; insertion from the right
  computes it. For a comparator that is not consistent the order is the
  implementation's; where every entry compares as equal to its neighbour, as around a
  key whose date is invalid, Node leaves the array as it is, and so does the insertion.
\<close>

fun insertBy :: "('a \<Rightarrow> 'a \<Rightarrow> int) \<Rightarrow> 'a \<Rightarrow> 'a list \<Rightarrow> 'a list" where
  "insertBy cmp x [] = [x]"
| "insertBy cmp x (y # ys) = (if cmp x y \<le> 0 then x # y # ys else y # insertBy cmp x ys)"

definition sortBy :: "('a \<Rightarrow> 'a \<Rightarrow> int) \<Rightarrow> 'a list \<Rightarrow> 'a list" where
  "sortBy cmp xs = foldr (insertBy cmp) xs []"

definition summaryHistory :: "disk \<Rightarrow> history_entry list" where
  "summaryHistory file =
     (case file of
        None \<Rightarrow> []
      | Some summaries \<Rightarrow> sortBy compareDates (flattenEntries summaries))"

subsection \<open>Sample data\<close>

text \<open>
  Monday 4 March 2024 at 23:00 in New York, a summary text with two of the four
  sections, and a bundle in which only the headlines were collected.
\<close>

definition monday2300 :: js_date where
  "monday2300 = \<lparr>getFullYear = 2024, getMonth = 2, getDate = 4, getHours = 23, getMinutes = 0\<rparr>"

definition sampleSaveEnv :: save_env where
  "sampleSaveEnv =
     \<lparr>now_iso = ''2024-03-05T04:00:00.000Z'', et_now = monday2300, write_ok = True\<rparr>"

definition summaryA :: summary_data where
  "summaryA = \<lparr>news = ''A'', trends = [], finance = [], overall = [],
               generatedAt = ''2024-03-04T14:00:00.000Z'', automated = False\<rparr>"

definition summaryB :: summary_data where
  "summaryB = \<lparr>news = ''B'', trends = [], finance = [], overall = [],
               generatedAt = ''2024-03-05T04:00:00.000Z'', automated = False\<rparr>"

definition storedA :: stored_summary where
  "storedA = \<lparr>news = ''A'', trends = [], finance = [], overall = [],
              generatedAt = ''2024-03-04T14:00:00.000Z'', automated = False,
              language = Some ''en'', country = Some ''US'',
              timestamp = Some ''2024-03-04T14:00:00.000Z'', marketOpen = False\<rparr>"

definition sampleText :: string where
  "sampleText = ''NEWS HIGHLIGHTS: calm---INFO GENIE: same''"

definition sampleBundle :: section_data where
  "sampleBundle =
     \<lparr>sd_news = Some [Headline ''Calm day'' [] ''Wire''], sd_trends = None, sd_finance = None\<rparr>"

definition sampleEnv :: gen_env where
  "sampleEnv =
     \<lparr>collected = Some sampleBundle,
      completion = (\<lambda>model attempt. Resolves (Some sampleText)),
      generatedAtEDT = ''2024-03-05T04:00:00.000Z'', saving = sampleSaveEnv\<rparr>"

text \<open>
  A service on which the model of the automated path is down and every other model
  answers; Wednesday 25 December 2024 at 10:00 and Saturday 28 December 2024 at noon in
  New York.
\<close>

definition primaryDownApi :: completion_api where
  "primaryDownApi model attempt =
     (if model = selectedModel then Rejects ''Provider returned error''
      else Resolves (Some sampleText))"

definition christmasMorning :: js_date where
  "christmasMorning =
     \<lparr>getFullYear = 2024, getMonth = 11, getDate = 25, getHours = 10, getMinutes = 0\<rparr>"

definition saturdayNoon :: js_date where
  "saturdayNoon =
     \<lparr>getFullYear = 2024, getMonth = 11, getDate = 28, getHours = 12, getMinutes = 0\<rparr>"

text \<open>
  A browser that cannot reach the server on 4 March 2024, on a page that is not served
  from the developer's machine; and an archive with a legacy record, an array of two
  regions and a single tagged record, its keys not in the order of the calendar.
\<close>

definition offlineEnv :: refresh_env where
  "offlineEnv =
     \<lparr>hostname = ''infodash.example'', localDate = ''2024-03-04'', collectRejects = None,
      chat = (\<lambda>retryCount. FetchRejects ''Failed to fetch''), timerFirst = False\<rparr>"

definition legacyA :: stored_summary where
  "legacyA = storedA\<lparr>language := None, country := None\<rparr>"

definition storedFr :: stored_summary where
  "storedFr = storedA\<lparr>news := ''F'', language := Some ''fr'', country := Some ''FR''\<rparr>"

definition mixedArchive :: archive where
  "mixedArchive =
     [(''2024-03-02'', Single legacyA),
      (''2024-03-04'', Many [storedA, storedFr]),
      (''2024-03-04-fr-FR'', Single storedFr),
      (''2024-03-03'', Single storedFr)]"

definition brokenServerEnv :: refresh_env where
  "brokenServerEnv = offlineEnv\<lparr>chat := (\<lambda>retryCount. HttpError 500 ''Internal Server Error'')\<rparr>"

text \<open>
  An evening on which the news request fails and the bulk route answers an error for
  every symbol, while the trends and the completion service work; and an archive into
  which a key with month 13 was saved between two dates.
\<close>

definition allSymbolsFailed :: "(string \<times> bulk_entry) list option" where
  "allSymbolsFailed =
     Some [(''^IXIC'', SymbolError ''Failed to fetch data''),
           (''AAPL'', SymbolError ''Failed to fetch data''),
           (''BTC-USD'', SymbolError ''Failed to fetch data'')]"

definition starvedBundle :: section_data where
  "starvedBundle =
     \<lparr>sd_news = None, sd_trends = Some [Topic ''eclipse'' ''2M+''],
      sd_finance = collectAutomatedFinanceData allSymbolsFailed\<rparr>"

definition starvedEnv :: gen_env where
  "starvedEnv = sampleEnv\<lparr>collected := Some starvedBundle\<rparr>"

definition brokenKeyArchive :: archive where
  "brokenKeyArchive =
     [(''2024-01-01'', Single storedA),
      (''2024-13-01'', Single storedA),
      (''2024-06-01'', Single storedA)]"

section \<open>Properties\<close>

subsection \<open>Summary store and scheduled path\<close>

lemma recordsOn_update:
  "recordsOn date (Some (AList.update date b summaries))
     = (case b of Single s \<Rightarrow> [s] | Many arr \<Rightarrow> arr)"
  by (simp add: recordsOn_def update_conv')

lemma find_None_filter:
  "List.find P xs = None \<Longrightarrow> filter (\<lambda>x. \<not> P x) xs = xs \<and> filter P xs = []"
  by (induction xs) (auto split: if_splits)

lemma save_fresh_region:
  assumes load: "loadDailySummary date lang ctry file = None"
    and save: "saveDailySummary env summaryData date lang ctry file = (True, file')"
  shows "length (recordsOn date file') = length (recordsOn date file) + 1
       \<and> (lang \<noteq> [] \<and> ctry \<noteq> [] \<longrightarrow>
            filter (sameRegion lang ctry) (recordsOn date file')
              = [withMetadata env summaryData lang ctry])"
proof -
  let ?new = "withMetadata env summaryData lang ctry"
  have new: "sameRegion lang ctry ?new"
    by (simp add: sameRegion_def withMetadata_def)
  obtain summaries where summaries: "summaries = (case file of None \<Rightarrow> [] | Some a \<Rightarrow> a)"
    by simp
  have rec: "recordsOn date file = recordsOn date (Some summaries)"
    using summaries by (cases "file") (simp_all add: recordsOn_def)
  have ld: "loadDailySummary date lang ctry (Some summaries) = None"
    using load summaries by (cases "file") (simp_all add: loadDailySummary_def)
  show ?thesis
  proof (cases "map_of summaries date")
    case None
    then have "file' = Some (AList.update date (Single ?new) summaries)"
      using save summaries by (auto simp: saveDailySummary_def Let_def split: if_splits)
    then show ?thesis
      using None new rec by (simp add: recordsOn_update) (simp add: recordsOn_def)
  next
    case (Some b)
    show ?thesis
    proof (cases b)
      case (Single s)
      then have f: "file' = Some (AList.update date (Many [s, ?new]) summaries)"
        using save summaries Some by (auto simp: saveDailySummary_def Let_def split: if_splits)
      have "lang \<noteq> [] \<and> ctry \<noteq> [] \<longrightarrow> \<not> sameRegion lang ctry s"
        using ld Some Single
        by (auto simp: loadDailySummary_def sameRegion_def truthy_def split: if_splits)
      then show ?thesis
        using f new rec Some Single by (simp add: recordsOn_update) (simp add: recordsOn_def)
    next
      case (Many arr)
      then have f: "file' = Some (AList.update date
          (Many (filter (\<lambda>summary. \<not> sameRegion lang ctry summary) arr @ [?new])) summaries)"
        using save summaries Some by (auto simp: saveDailySummary_def Let_def split: if_splits)
      have "List.find (sameRegion lang ctry) arr = None"
        using ld Some Many by (simp add: loadDailySummary_def)
      then have "filter (\<lambda>x. \<not> sameRegion lang ctry x) arr = arr
          \<and> filter (sameRegion lang ctry) arr = []"
        by (rule find_None_filter)
      then show ?thesis
        using f new rec Some Many by (simp add: recordsOn_update) (simp add: recordsOn_def)
    qed
  qed
qed

lemma region_saved:
  assumes "generateSummaryForRegion env region date file = (SummarySaved, file')"
  shows "loadDailySummary date (r_language region) (r_country region) file = None
       \<and> (\<exists>summaryData. saveDailySummary (saving env) summaryData date
             (r_language region) (r_country region) file = (True, file'))"
  using assms
  by (auto simp: generateSummaryForRegion_def Let_def
      split: option.splits if_splits prod.splits bool.splits)

lemma existing_summary_blocks:
  assumes "loadDailySummary date (r_language region) (r_country region) file = Some existingSummary"
  shows "generateSummaryForRegion env region date file = (AlreadyExists, file)"
  using assms by (simp add: generateSummaryForRegion_def)

lemma automatedAttempts_unfolded:
  "automatedAttempts api 1 =
     (case api selectedModel 1 of
        Resolves content \<Rightarrow>
          if \<not> truthy content
          then (case automatedAttempts api 2 of (r, evs) \<Rightarrow> (r, Call selectedModel # evs))
          else (content, [Call selectedModel])
      | Rejects error \<Rightarrow>
          (case automatedAttempts api 2 of
             (r, evs) \<Rightarrow> (r, Call selectedModel # Wait 1000 # evs)))"
  "automatedAttempts api 2 =
     (case api selectedModel 2 of
        Resolves content \<Rightarrow>
          if \<not> truthy content
          then (case automatedAttempts api 3 of (r, evs) \<Rightarrow> (r, Call selectedModel # evs))
          else (content, [Call selectedModel])
      | Rejects error \<Rightarrow>
          (case automatedAttempts api 3 of
             (r, evs) \<Rightarrow> (r, Call selectedModel # Wait 2000 # evs)))"
  "automatedAttempts api 3 =
     (case api selectedModel 3 of
        Resolves content \<Rightarrow>
          if \<not> truthy content then (None, [Call selectedModel])
          else (content, [Call selectedModel])
      | Rejects error \<Rightarrow> (None, [Call selectedModel]))"
proof -
  have end4: "automatedAttempts api 4 = (None, [])"
    by (subst automatedAttempts.simps) (simp add: maxRetries_def)
  show "automatedAttempts api 3 =
     (case api selectedModel 3 of
        Resolves content \<Rightarrow>
          if \<not> truthy content then (None, [Call selectedModel])
          else (content, [Call selectedModel])
      | Rejects error \<Rightarrow> (None, [Call selectedModel]))"
    by (subst automatedAttempts.simps, cases "api selectedModel 3")
       (simp_all add: maxRetries_def end4 del: One_nat_def)
  show "automatedAttempts api 2 =
     (case api selectedModel 2 of
        Resolves content \<Rightarrow>
          if \<not> truthy content
          then (case automatedAttempts api 3 of (r, evs) \<Rightarrow> (r, Call selectedModel # evs))
          else (content, [Call selectedModel])
      | Rejects error \<Rightarrow>
          (case automatedAttempts api 3 of
             (r, evs) \<Rightarrow> (r, Call selectedModel # Wait 2000 # evs)))"
    by (subst automatedAttempts.simps, cases "api selectedModel 2")
       (simp_all add: maxRetries_def del: One_nat_def)
  show "automatedAttempts api 1 =
     (case api selectedModel 1 of
        Resolves content \<Rightarrow>
          if \<not> truthy content
          then (case automatedAttempts api 2 of (r, evs) \<Rightarrow> (r, Call selectedModel # evs))
          else (content, [Call selectedModel])
      | Rejects error \<Rightarrow>
          (case automatedAttempts api 2 of
             (r, evs) \<Rightarrow> (r, Call selectedModel # Wait 1000 # evs)))"
    by (subst automatedAttempts.simps, cases "api selectedModel 1")
       (simp_all add: maxRetries_def del: One_nat_def)
qed

lemma first_attempt_answers:
  assumes "api selectedModel 1 = Resolves (Some reply)" "reply \<noteq> []"
  shows "generateAutomatedSummary api = (Some reply, [Call selectedModel])"
  using assms
  by (simp add: generateAutomatedSummary_def automatedAttempts_unfolded truthy_def
      del: One_nat_def)

lemma region_saves_when_text_valid:
  assumes suff: "\<not> insufficientCoreData sectionData"
    and col: "collected env = Some sectionData"
    and ld: "loadDailySummary date (r_language region) (r_country region) file = None"
    and api: "completion env selectedModel 1 = Resolves (Some reply)"
    and ok: "validSummaryText (Some reply)" and wr: "write_ok (saving env)"
  shows "fst (generateSummaryForRegion env region date file) = SummarySaved
       \<and> length (recordsOn date (snd (generateSummaryForRegion env region date file)))
           = length (recordsOn date file) + 1"
proof -
  have ne: "reply \<noteq> []" using ok by (simp add: validSummaryText_def)
  have gen: "generateAutomatedSummary (completion env) = (Some reply, [Call selectedModel])"
    using first_attempt_answers [of "completion env" reply] api ne by simp
  obtain l file' where lf: "generateSummaryForRegion env region date file = (l, file')"
    by (cases "generateSummaryForRegion env region date file")
  have l: "l = SummarySaved"
    using lf suff col ld gen ok wr
    by (auto simp: generateSummaryForRegion_def saveDailySummary_def Let_def split: if_splits)
  from region_saved [OF lf [unfolded l]] obtain summaryData where
    "saveDailySummary (saving env) summaryData date (r_language region) (r_country region) file
       = (True, file')"
    by blast
  from save_fresh_region [OF ld this] lf l show ?thesis by simp
qed

lemma sample_generation:
  "fst (generateDailySummary sampleEnv ''2024-03-04'' (newGenerator, Some []))
     = Completed SummarySaved"
  "fst (snd (generateDailySummary sampleEnv ''2024-03-04'' (newGenerator, Some [])))
     = \<lparr>isGenerating = False, lastGenerationDate = Some ''2024-03-04''\<rparr>"
  by code_simp+

text \<open>
  C1 (store invariant: one record per date, language and country; a second save for
  the same triple replaces the first). The array branch of \<^verbatim>\<open>saveDailySummary\<close>
  filters the old record out, the single-object branch does not: on an empty archive,
  saving A and then B for (2024-03-04, en, US) leaves both records under the date, and
  \<^verbatim>\<open>loadDailySummary\<close>, which takes the first match, still answers A. (Had A
  been kept in an array, the same save of B would have replaced it.)
\<close>

theorem save_again_keeps_first_record:
  "loadDailySummary ''2024-03-04'' ''en'' ''US''
     (snd (saveDailySummary sampleSaveEnv summaryB ''2024-03-04'' ''en'' ''US''
        (snd (saveDailySummary sampleSaveEnv summaryA ''2024-03-04'' ''en'' ''US'' (Some [])))))
     = Some (withMetadata sampleSaveEnv summaryA ''en'' ''US'')
   \<and> filter (sameRegion ''en'' ''US'')
       (recordsOn ''2024-03-04''
         (snd (saveDailySummary sampleSaveEnv summaryB ''2024-03-04'' ''en'' ''US''
            (snd (saveDailySummary sampleSaveEnv summaryA ''2024-03-04'' ''en'' ''US'' (Some []))))))
     = [withMetadata sampleSaveEnv summaryA ''en'' ''US'',
        withMetadata sampleSaveEnv summaryB ''en'' ''US'']
   \<and> withMetadata sampleSaveEnv summaryA ''en'' ''US''
       \<noteq> withMetadata sampleSaveEnv summaryB ''en'' ''US''
   \<and> loadDailySummary ''2024-03-04'' ''en'' ''US''
       (snd (saveDailySummary sampleSaveEnv summaryB ''2024-03-04'' ''en'' ''US''
          (Some [(''2024-03-04'', Many [withMetadata sampleSaveEnv summaryA ''en'' ''US''])])))
     = Some (withMetadata sampleSaveEnv summaryB ''en'' ''US'')"
  by (simp add: saveDailySummary_def loadDailySummary_def recordsOn_def sampleSaveEnv_def
      sameRegion_def withMetadata_def truthy_def summaryA_def summaryB_def)

text \<open>
  C2 (same-day idempotency of the scheduled generate operation). When an invocation of
  \<^verbatim>\<open>generateDailySummary\<close> saved a summary for the day, a second invocation that
  reads the same date from the clock returns at the \<^verbatim>\<open>lastGenerationDate\<close> test
  and changes neither the generator nor the file, whatever the outside world would
  have answered; the file then holds exactly one record of the generator's region for
  that day, one record more than before the first invocation.
\<close>

theorem generate_twice_same_day:
  assumes "generateDailySummary env1 todayEDT (g, file) = (Completed SummarySaved, g1, file1)"
  shows "generateDailySummary env2 todayEDT (g1, file1) = (AlreadyGeneratedToday, g1, file1)
       \<and> length (filter (sameRegion ''en'' ''US'') (recordsOn todayEDT file1)) = 1
       \<and> length (recordsOn todayEDT file1) = length (recordsOn todayEDT file) + 1"
proof -
  from assms have
    g1: "g1 = (inFlight g)\<lparr>lastGenerationDate := Some todayEDT, isGenerating := False\<rparr>" and
    reg: "generateSummaryForRegion env1 theRegion todayEDT file = (SummarySaved, file1)"
    by (auto simp: generateDailySummary_def generateDailySummaryWith_def
        split: if_splits prod.splits sum.splits)
  have second: "generateDailySummary env2 todayEDT (g1, file1) = (AlreadyGeneratedToday, g1, file1)"
    using g1 by (simp add: generateDailySummary_def generateDailySummaryWith_def inFlight_def)
  from region_saved [OF reg] obtain summaryData where
    ld: "loadDailySummary todayEDT ''en'' ''US'' file = None" and
    sv: "saveDailySummary (saving env1) summaryData todayEDT ''en'' ''US'' file = (True, file1)"
    by (auto simp: theRegion_def)
  from save_fresh_region [OF ld sv] have
    "filter (sameRegion ''en'' ''US'') (recordsOn todayEDT file1)
       = [withMetadata (saving env1) summaryData ''en'' ''US'']
     \<and> length (recordsOn todayEDT file1) = length (recordsOn todayEDT file) + 1"
    by simp
  with second show ?thesis by simp
qed

theorem generate_twice_same_day_witness:
  "generateDailySummary sampleEnv ''2024-03-04'' (newGenerator, Some [])
     = (Completed SummarySaved,
        \<lparr>isGenerating = False, lastGenerationDate = Some ''2024-03-04''\<rparr>,
        snd (snd (generateDailySummary sampleEnv ''2024-03-04'' (newGenerator, Some []))))
   \<and> generateDailySummary sampleEnv ''2024-03-04''
        (\<lparr>isGenerating = False, lastGenerationDate = Some ''2024-03-04''\<rparr>,
         snd (snd (generateDailySummary sampleEnv ''2024-03-04'' (newGenerator, Some []))))
     = (AlreadyGeneratedToday,
        \<lparr>isGenerating = False, lastGenerationDate = Some ''2024-03-04''\<rparr>,
        snd (snd (generateDailySummary sampleEnv ''2024-03-04'' (newGenerator, Some []))))
   \<and> length (recordsOn ''2024-03-04''
        (snd (snd (generateDailySummary sampleEnv ''2024-03-04'' (newGenerator, Some []))))) = 1"
proof -
  have first: "generateDailySummary sampleEnv ''2024-03-04'' (newGenerator, Some [])
     = (Completed SummarySaved,
        \<lparr>isGenerating = False, lastGenerationDate = Some ''2024-03-04''\<rparr>,
        snd (snd (generateDailySummary sampleEnv ''2024-03-04'' (newGenerator, Some []))))"
    using sample_generation by (simp add: prod_eq_iff)
  have "recordsOn ''2024-03-04'' (Some []) = []"
    by (simp add: recordsOn_def)
  with generate_twice_same_day [OF first, of sampleEnv] first show ?thesis
    by simp
qed

text \<open>
  What the guard of \<^verbatim>\<open>generateSummaryForRegion\<close> does decide: with the news
  \<^verbatim>\<open>null\<close> or an empty array and the finance \<^verbatim>\<open>null\<close> or an object without
  properties the attempt returns with the file as it was; the trends are not read; and
  with news or finance present and the trends \<^verbatim>\<open>null\<close>, a valid reply of the first
  completion attempt and a file that can be written give a saved record.
\<close>

lemma guard_on_null_or_keyless:
  "((sd_news sectionData = None \<or> sd_news sectionData = Some [])
      \<and> (sd_finance sectionData = None \<or> sd_finance sectionData = Some []) \<longrightarrow>
      snd (generateSummaryForRegion (env\<lparr>collected := Some sectionData\<rparr>) region date file) = file
      \<and> (loadDailySummary date (r_language region) (r_country region) file = None \<longrightarrow>
           fst (generateSummaryForRegion (env\<lparr>collected := Some sectionData\<rparr>) region date file)
             = InsufficientData))
   \<and> insufficientCoreData (sectionData\<lparr>sd_trends := anyTrends\<rparr>) = insufficientCoreData sectionData
   \<and> (\<not> ((sd_news sectionData = None \<or> sd_news sectionData = Some [])
           \<and> (sd_finance sectionData = None \<or> sd_finance sectionData = Some []))
        \<and> loadDailySummary date (r_language region) (r_country region) file = None
        \<and> completion env selectedModel 1 = Resolves (Some reply)
        \<and> validSummaryText (Some reply) \<and> write_ok (saving env) \<longrightarrow>
      fst (generateSummaryForRegion (env\<lparr>collected := Some (sectionData\<lparr>sd_trends := None\<rparr>)\<rparr>)
             region date file) = SummarySaved
      \<and> length (recordsOn date
           (snd (generateSummaryForRegion
                   (env\<lparr>collected := Some (sectionData\<lparr>sd_trends := None\<rparr>)\<rparr>)
                   region date file))) = length (recordsOn date file) + 1)"
proof -
  have guard: "insufficientCoreData sectionData =
      ((sd_news sectionData = None \<or> sd_news sectionData = Some [])
       \<and> (sd_finance sectionData = None \<or> sd_finance sectionData = Some []))"
    by (auto simp: insufficientCoreData_def split: option.splits)
  have a: "insufficientCoreData sectionData \<Longrightarrow>
      snd (generateSummaryForRegion (env\<lparr>collected := Some sectionData\<rparr>) region date file) = file"
    by (simp add: generateSummaryForRegion_def split: option.splits)
  have b: "insufficientCoreData sectionData \<Longrightarrow>
      loadDailySummary date (r_language region) (r_country region) file = None \<Longrightarrow>
      fst (generateSummaryForRegion (env\<lparr>collected := Some sectionData\<rparr>) region date file)
        = InsufficientData"
    by (simp add: generateSummaryForRegion_def)
  have c: "insufficientCoreData (sectionData\<lparr>sd_trends := t\<rparr>) = insufficientCoreData sectionData"
    for t
    by (simp add: insufficientCoreData_def)
  have d: "fst (generateSummaryForRegion (env\<lparr>collected := Some (sectionData\<lparr>sd_trends := None\<rparr>)\<rparr>)
             region date file) = SummarySaved
      \<and> length (recordsOn date
           (snd (generateSummaryForRegion
                   (env\<lparr>collected := Some (sectionData\<lparr>sd_trends := None\<rparr>)\<rparr>)
                   region date file))) = length (recordsOn date file) + 1"
    if suff: "\<not> insufficientCoreData sectionData"
      and ld: "loadDailySummary date (r_language region) (r_country region) file = None"
      and api: "completion env selectedModel 1 = Resolves (Some reply)"
      and ok: "validSummaryText (Some reply)" and wr: "write_ok (saving env)"
    by (rule region_saves_when_text_valid
          [where sectionData = "sectionData\<lparr>sd_trends := None\<rparr>" and reply = reply])
       (use that c in \<open>simp_all\<close>)
  show ?thesis using a b c d unfolding guard [symmetric] by blast
qed

text \<open>
  The collector never answers an object without properties, so on a collected bundle
  the second half of the guard is decided by \<^verbatim>\<open>null\<close> alone.
\<close>

lemma collected_finance_has_three_keys:
  "collectAutomatedFinanceData response = Some props \<Longrightarrow> length props = 3"
  by (auto simp: collectAutomatedFinanceData_def split: option.splits prod.splits)

lemma collected_finance_passes_guard:
  "collectAutomatedFinanceData response = Some props \<Longrightarrow>
     \<not> insufficientCoreData \<lparr>sd_news = anyNews, sd_trends = anyTrends, sd_finance = Some props\<rparr>"
  using collected_finance_has_three_keys [of response props]
  by (auto simp: insufficientCoreData_def)

text \<open>
  C3 (insufficient-data guard: with news and finance both absent or empty the attempt
  saves nothing). The guard tests the finance for \<^verbatim>\<open>null\<close> and for an object without
  keys, and the collector's empty snapshot is neither: when the news request fails and
  the bulk route answers an error for every symbol, the finance collected is
  \<^verbatim>\<open>{nasdaq: null, techStocks: {}, crypto: {}}\<close>, the guard lets the attempt pass,
  the completion service is asked, and its reply is saved as the summary of the day.
\<close>

theorem empty_finance_snapshot_is_summarised:
  "sd_news starvedBundle = None
   \<and> sd_finance starvedBundle
       = Some [(''nasdaq'', Null), (''techStocks'', Quotes []), (''crypto'', Quotes [])]
   \<and> generateSummaryForRegion starvedEnv theRegion ''2024-03-04'' (Some [])
       = (SummarySaved,
          Some [(''2024-03-04'',
                 Single \<lparr>news = ''calm'', trends = [], finance = [], overall = ''same'',
                         generatedAt = ''2024-03-05T04:00:00.000Z'', automated = True,
                         language = Some ''en'', country = Some ''US'',
                         timestamp = Some ''2024-03-05T04:00:00.000Z'',
                         marketOpen = False\<rparr>)])"
  by code_simp

text \<open>
  C4 (the 23:00 trigger always generates and overwrites). The callback of the trigger
  calls \<^verbatim>\<open>generateDailySummary\<close>, and \<^verbatim>\<open>generateSummaryForRegion\<close> returns as soon
  as \<^verbatim>\<open>loadDailySummary\<close> finds a summary for the day: with the morning's record A in
  the archive the pass leaves the file as it was, although the same pass on an
  empty archive saves a summary.
\<close>

theorem trigger2300_keeps_existing_summary:
  "trigger2300 sampleEnv ''2024-03-04'' (newGenerator, Some [(''2024-03-04'', Single storedA)])
     = (Completed AlreadyExists,
        \<lparr>isGenerating = False, lastGenerationDate = Some ''2024-03-04''\<rparr>,
        Some [(''2024-03-04'', Single storedA)])
   \<and> fst (trigger2300 sampleEnv ''2024-03-04'' (newGenerator, Some [])) = Completed SummarySaved"
proof -
  have ld: "loadDailySummary ''2024-03-04'' (r_language theRegion) (r_country theRegion)
              (Some [(''2024-03-04'', Single storedA)]) = Some storedA"
    by (simp add: loadDailySummary_def theRegion_def storedA_def truthy_def sameRegion_def)
  have kept: "trigger2300 sampleEnv ''2024-03-04'' (newGenerator, Some [(''2024-03-04'', Single storedA)])
     = (Completed AlreadyExists,
        \<lparr>isGenerating = False, lastGenerationDate = Some ''2024-03-04''\<rparr>,
        Some [(''2024-03-04'', Single storedA)])"
    by (simp add: trigger2300_def generateDailySummary_def generateDailySummaryWith_def
        newGenerator_def inFlight_def existing_summary_blocks [OF ld])
  have fresh: "fst (trigger2300 sampleEnv ''2024-03-04'' (newGenerator, Some []))
      = Completed SummarySaved"
    using sample_generation(1) by (simp add: trigger2300_def)
  from kept fresh show ?thesis by simp
qed

text \<open>
  C8 (the flag \<^verbatim>\<open>isGenerating\<close> is false after every invocation). An invocation
  that arrives while another one is suspended finds the flag set, returns at once and
  leaves it set; this is the guard against overlapping invocations.
\<close>

theorem dropped_trigger_returns_with_flag_set:
  "generateDailySummary sampleEnv ''2024-03-04'' (inFlight newGenerator, Some [])
     = (AlreadyInProgress, \<lparr>isGenerating = True, lastGenerationDate = None\<rparr>, Some [])"
  by (simp add: generateDailySummary_def generateDailySummaryWith_def inFlight_def newGenerator_def)

text \<open>
  C8 as amended: an invocation that finds the flag clear returns with the flag clear,
  whatever the inner stage does, a thrown error included; so a failed or aborted
  attempt does not leave the guard set. It holds for any inner stage and for
  \<^verbatim>\<open>generateSummaryForRegion\<close> in particular. An invocation that finds the flag set
  returns at once and changes nothing.
\<close>

theorem flag_cleared_after_generation:
  "(\<not> isGenerating g \<longrightarrow>
      \<not> isGenerating (fst (snd (generateDailySummaryWith stage todayEDT (g, file))))
      \<and> \<not> isGenerating (fst (snd (generateDailySummary env todayEDT (g, file)))))
   \<and> (isGenerating g \<longrightarrow>
      generateDailySummaryWith stage todayEDT (g, file) = (AlreadyInProgress, g, file)
      \<and> generateDailySummary env todayEDT (g, file) = (AlreadyInProgress, g, file))"
proof -
  have "\<not> isGenerating (fst (snd (generateDailySummaryWith st todayEDT (g, file))))"
    if "\<not> isGenerating g" for st
    using that
    by (simp add: generateDailySummaryWith_def inFlight_def split: prod.splits sum.splits)
  moreover have "generateDailySummaryWith st todayEDT (g, file) = (AlreadyInProgress, g, file)"
    if "isGenerating g" for st
    using that by (simp add: generateDailySummaryWith_def)
  ultimately show ?thesis
    by (simp add: generateDailySummary_def)
qed

theorem flag_cleared_after_generation_witness:
  "\<not> isGenerating newGenerator
   \<and> generateDailySummaryWith (\<lambda>file. (Inl ''disk full'', file)) ''2024-03-04'' (newGenerator, Some [])
       = (ErrorLogged ''disk full'', \<lparr>isGenerating = False, lastGenerationDate = None\<rparr>, Some [])
   \<and> \<not> isGenerating (fst (snd (generateDailySummary sampleEnv ''2024-03-04'' (newGenerator, Some []))))
   \<and> isGenerating (inFlight newGenerator)
   \<and> generateDailySummary sampleEnv ''2024-03-04'' (inFlight newGenerator, Some [])
       = (AlreadyInProgress, inFlight newGenerator, Some [])"
proof -
  have idle: "\<not> isGenerating newGenerator"
    by (simp add: newGenerator_def)
  have busy: "isGenerating (inFlight newGenerator)"
    by (simp add: inFlight_def)
  have thrown: "generateDailySummaryWith (\<lambda>file. (Inl ''disk full'', file)) ''2024-03-04''
        (newGenerator, Some [])
       = (ErrorLogged ''disk full'', \<lparr>isGenerating = False, lastGenerationDate = None\<rparr>, Some [])"
    by (simp add: generateDailySummaryWith_def newGenerator_def inFlight_def)
  from flag_cleared_after_generation
         [of newGenerator "\<lambda>file. (Inl ''disk full'', file)" "''2024-03-04''" "Some []" sampleEnv]
       flag_cleared_after_generation
         [of "inFlight newGenerator" "\<lambda>file. (Inl ''disk full'', file)" "''2024-03-04''" "Some []"
             sampleEnv]
    idle busy thrown show ?thesis by simp
qed

subsection \<open>Completion client of the automated path\<close>

text \<open>
  C7 (the automated path falls through a list of fallback models). With the model of
  the automated path down and every other model answering,
  \<^verbatim>\<open>generateAutomatedSummary\<close> asks the same model three times and gives up, while
  \<^verbatim>\<open>callOpenRouterWithRetry\<close>, the client of the chat route, moves on to the next
  model of its list and gets the answer.
\<close>

theorem automated_path_never_changes_model:
  "generateAutomatedSummary primaryDownApi
     = (None, [Call selectedModel, Wait 1000, Call selectedModel, Wait 2000, Call selectedModel])
   \<and> callOpenRouterWithRetry primaryDownApi selectedModel
     = (Inr (Some sampleText), [Call selectedModel, Wait 1000, Call ''openai/gpt-oss-20b:free''])"
  by code_simp

text \<open>
  C7 as amended: on the automated path every attempt asks the one fixed model, at most
  three times; the client returns \<^verbatim>\<open>null\<close>, and never throws, exactly when all three
  attempts failed (a rejected call or a response without content), and then it has
  made all three calls.
\<close>

theorem automated_path_retries_one_model:
  "(fst (generateAutomatedSummary api) = None) =
     (attemptFails (api selectedModel 1) \<and> attemptFails (api selectedModel 2)
      \<and> attemptFails (api selectedModel 3))
   \<and> (fst (generateAutomatedSummary api) = None \<longrightarrow>
        calls (snd (generateAutomatedSummary api)) = [selectedModel, selectedModel, selectedModel])
   \<and> calls (snd (generateAutomatedSummary api))
       = replicate (length (calls (snd (generateAutomatedSummary api)))) selectedModel
   \<and> length (calls (snd (generateAutomatedSummary api))) \<le> 3"
  by (cases "api selectedModel 1"; cases "api selectedModel 2"; cases "api selectedModel 3")
     (auto simp: generateAutomatedSummary_def automatedAttempts_unfolded attemptFails_def truthy_def
       simp del: One_nat_def split: option.splits)

theorem automated_path_retries_one_model_witness:
  "fst (generateAutomatedSummary primaryDownApi) = None
   \<and> attemptFails (primaryDownApi selectedModel 1)
   \<and> calls (snd (generateAutomatedSummary primaryDownApi))
       = [selectedModel, selectedModel, selectedModel]"
proof -
  have "attemptFails (primaryDownApi selectedModel n)" for n
    by (simp add: attemptFails_def primaryDownApi_def)
  with automated_path_retries_one_model [of primaryDownApi] show ?thesis
    by simp
qed

subsection \<open>Market calendar\<close>

text \<open>
  C6 (a crypto instrument is always open, for the evaluator of the scheduling logic and
  of the prompt builder too). On Christmas morning the evaluator of the browser answers
  open for BTC-USD; the evaluator of the server, the one that the prompt builder and the
  store call, takes no instrument and answers closed.
\<close>

theorem server_calendar_ignores_instrument:
  "isMarketOpen_client (Some ''BTC-USD'') christmasMorning \<and> \<not> isMarketOpen christmasMorning"
  by code_simp

text \<open>
  C6 as amended: the evaluator of the browser answers open at every instant when the
  symbol typed, in upper case, ends in \<^verbatim>\<open>-USD\<close>; the evaluator of the server follows
  the calendar alone and answers closed on every 25 December and on every Saturday
  and Sunday.
\<close>

theorem crypto_open_in_browser_only:
  "(endsWith (toUpperCase symbol) ''-USD'' \<longrightarrow> isMarketOpen_client (Some symbol) etNow)
   \<and> (getMonth etNow = 11 \<and> getDate etNow = 25 \<longrightarrow> \<not> isMarketOpen etNow)
   \<and> (getDay etNow = 0 \<or> getDay etNow = 6 \<longrightarrow> \<not> isMarketOpen etNow)"
  by (auto simp: isMarketOpen_client_def isMarketOpen_def inSession_def isHoliday_def Let_def)

theorem crypto_open_in_browser_only_witness:
  "endsWith (toUpperCase ''btc-usd'') ''-USD''
   \<and> isMarketOpen_client (Some ''btc-usd'') christmasMorning
   \<and> getMonth christmasMorning = 11 \<and> getDate christmasMorning = 25
   \<and> \<not> isMarketOpen christmasMorning
   \<and> getDay saturdayNoon = 6
   \<and> isMarketOpen_client (Some ''btc-usd'') saturdayNoon
   \<and> \<not> isMarketOpen saturdayNoon"
proof -
  have u: "endsWith (toUpperCase ''btc-usd'') ''-USD''"
    by code_simp
  have d: "getMonth christmasMorning = 11 \<and> getDate christmasMorning = 25"
    by (simp add: christmasMorning_def)
  have s: "getDay saturdayNoon = 6"
    by code_simp
  from crypto_open_in_browser_only [of "''btc-usd''" christmasMorning]
       crypto_open_in_browser_only [of "''btc-usd''" saturdayNoon] u d s
  show ?thesis
    by simp
qed

subsection \<open>Manual path\<close>

text \<open>
  C9 (the marker \<^verbatim>\<open>lastSummaryRefreshDate\<close> is written only when the manual attempt
  succeeds). \<^verbatim>\<open>refreshSummary\<close> takes the text returned by \<^verbatim>\<open>generateSummary\<close> for a
  summary unless it contains \<^verbatim>\<open>Error:\<close> or \<^verbatim>\<open>Unable to generate\<close>; but after three
  failed calls \<^verbatim>\<open>generateSummary\<close> returns the message of the last error, which has
  neither. With the server out of reach, or answering 500 each time, nothing is
  generated and the marker is written all the same.
\<close>

theorem failed_refresh_marks_the_day:
  "fst (generateSummary (chat offlineEnv)) = Some ''Failed to fetch''
   \<and> refreshSummary offlineEnv \<lparr>lastSummaryRefreshDate = None\<rparr>
       = (RefreshedAndSaved, \<lparr>lastSummaryRefreshDate = Some ''2024-03-04''\<rparr>)
   \<and> hasRefreshedToday offlineEnv (snd (refreshSummary offlineEnv \<lparr>lastSummaryRefreshDate = None\<rparr>))
   \<and> fst (generateSummary (chat brokenServerEnv))
       = Some ''HTTP error! status: 500 - Internal Server Error''
   \<and> refreshSummary brokenServerEnv \<lparr>lastSummaryRefreshDate = None\<rparr>
       = (RefreshedAndSaved, \<lparr>lastSummaryRefreshDate = Some ''2024-03-04''\<rparr>)"
  by code_simp

subsection \<open>History route\<close>

lemma mset_insertBy: "mset (insertBy cmp x ys) = add_mset x (mset ys)"
  by (induction ys) simp_all

lemma mset_sortBy: "mset (sortBy cmp xs) = mset xs"
  by (induction xs) (simp_all add: sortBy_def mset_insertBy)

lemma set_sortBy: "set (sortBy cmp xs) = set xs"
  using mset_sortBy [of cmp xs] by (metis set_mset_mset)

lemma sorted_insertBy:
  assumes "sorted_wrt (\<lambda>a b. key b \<le> key a) ys"
    and "\<And>b. b \<in> set ys \<Longrightarrow> cmp x b = key b - key x"
  shows "sorted_wrt (\<lambda>a b. key b \<le> key a) (insertBy cmp x ys)"
  using assms
proof (induction ys)
  case Nil
  then show ?case by simp
next
  case (Cons y ys)
  have cmp: "cmp x y = key y - key x"
    using Cons.prems(2) by simp
  show ?case
  proof (cases "cmp x y \<le> 0")
    case True
    then have "key y \<le> key x" using cmp by simp
    moreover have "\<forall>z \<in> set ys. key z \<le> key y" using Cons.prems(1) by simp
    ultimately show ?thesis using True Cons.prems(1) by fastforce
  next
    case False
    then have less: "key x \<le> key y" using cmp by simp
    have tail: "sorted_wrt (\<lambda>a b. key b \<le> key a) (insertBy cmp x ys)"
      using Cons by simp
    have "set (insertBy cmp x ys) = insert x (set ys)"
      using mset_insertBy [of cmp x ys] by (metis set_mset_mset set_mset_add_mset_insert)
    then show ?thesis using False less tail Cons.prems(1) by auto
  qed
qed

lemma sorted_sortBy:
  assumes "\<And>a b. a \<in> set xs \<Longrightarrow> b \<in> set xs \<Longrightarrow> cmp a b = key b - key a"
  shows "sorted_wrt (\<lambda>a b. key b \<le> key a) (sortBy cmp xs)"
  using assms
proof (induction xs)
  case Nil
  then show ?case by (simp add: sortBy_def)
next
  case (Cons x xs)
  have "sorted_wrt (\<lambda>a b. key b \<le> key a) (sortBy cmp xs)"
    using Cons by simp
  moreover have "\<And>b. b \<in> set (sortBy cmp xs) \<Longrightarrow> cmp x b = key b - key x"
    using Cons.prems by (simp add: set_sortBy)
  ultimately have "sorted_wrt (\<lambda>a b. key b \<le> key a) (insertBy cmp x (sortBy cmp xs))"
    by (rule sorted_insertBy)
  then show ?case by (simp add: sortBy_def)
qed

lemma flattenEntries_keys:
  "e \<in> set (flattenEntries summaries) \<Longrightarrow>
     matchesDateFormat (h_date e) \<and> h_date e \<in> fst ` set summaries"
proof (induction summaries)
  case Nil
  then show ?case by simp
next
  case (Cons p summaries)
  obtain date summary where p: "p = (date, summary)" by (cases p)
  from Cons show ?case
    unfolding p
    by (cases summary) (auto simp: entryOf_def split: if_splits)
qed

lemma day_overflow_runs_over: "dateValue ''2024-02-30'' = dateValue ''2024-03-01''"
  by code_simp

text \<open>
  C10 (the history is always sorted by date, newest first, for every archive content).
  The route tests the format of a key, not its month and day: the key
  \<^verbatim>\<open>2024-13-01\<close> passes, \<^verbatim>\<open>new Date\<close> of it is invalid, and the comparator answers
  \<^verbatim>\<open>NaN\<close> against it. With that key saved between 1 January and 1 June the entries
  come back as they were, 1 January before 1 June.
\<close>

theorem history_out_of_order_after_invalid_key:
  "map h_date (summaryHistory (Some brokenKeyArchive))
     = [''2024-01-01'', ''2024-13-01'', ''2024-06-01'']
   \<and> dateValue ''2024-13-01'' = None
   \<and> dateValue ''2024-01-01'' = Some 1704067200000
   \<and> dateValue ''2024-06-01'' = Some 1717200000000"
  by code_simp

text \<open>
  C10 as amended: for every archive, whatever the shapes of its buckets, in which every
  key of the format of a date has a month from 01 to 12 and a day from 01 to 31, the
  entries returned are the flattened entries, rearranged so that the time values of
  their dates never increase (newest first).
\<close>

theorem history_newest_first:
  assumes "\<forall>date \<in> fst ` set summaries. matchesDateFormat date \<longrightarrow> dateValue date \<noteq> None"
  shows "sorted_wrt (\<lambda>a b. the (dateValue (h_date b)) \<le> the (dateValue (h_date a)))
           (summaryHistory (Some summaries))
       \<and> mset (summaryHistory (Some summaries)) = mset (flattenEntries summaries)"
proof -
  have valid: "dateValue (h_date e) \<noteq> None" if "e \<in> set (flattenEntries summaries)" for e
    using flattenEntries_keys [OF that] assms by blast
  have "compareDates a b = the (dateValue (h_date b)) - the (dateValue (h_date a))"
    if "a \<in> set (flattenEntries summaries)" "b \<in> set (flattenEntries summaries)" for a b
    using valid [OF that(1)] valid [OF that(2)] by (auto simp: compareDates_def)
  then have "sorted_wrt (\<lambda>a b. the (dateValue (h_date b)) \<le> the (dateValue (h_date a)))
      (sortBy compareDates (flattenEntries summaries))"
    by (rule sorted_sortBy)
  then show ?thesis
    by (simp add: summaryHistory_def mset_sortBy)
qed

theorem history_newest_first_witness:
  "map h_date (summaryHistory (Some mixedArchive))
     = [''2024-03-04'', ''2024-03-04'', ''2024-03-03'', ''2024-03-02'']
   \<and> map h_language (summaryHistory (Some mixedArchive)) = [''en'', ''fr'', ''fr'', ''en'']
   \<and> sorted_wrt (\<lambda>a b. the (dateValue (h_date b)) \<le> the (dateValue (h_date a)))
        (summaryHistory (Some mixedArchive))"
proof -
  have keys: "\<forall>date \<in> fst ` set mixedArchive. matchesDateFormat date \<longrightarrow> dateValue date \<noteq> None"
    unfolding mixedArchive_def by code_simp
  have out: "map h_date (summaryHistory (Some mixedArchive))
       = [''2024-03-04'', ''2024-03-04'', ''2024-03-03'', ''2024-03-02'']
     \<and> map h_language (summaryHistory (Some mixedArchive)) = [''en'', ''fr'', ''fr'', ''en'']"
    by code_simp
  from history_newest_first [OF keys] out show ?thesis by simp
qed

subsection \<open>Section parser\<close>

lemma startsWith_iff: "startsWith s p \<longleftrightarrow> (\<exists>w. s = p @ w)"
  unfolding startsWith_def
  by (metis append_eq_conv_conj append_take_drop_id)

lemma includes_str_iff: "includes_str s p \<longleftrightarrow> (\<exists>u w. s = u @ p @ w)"
proof (induction s)
  case Nil
  then show ?case by auto
next
  case (Cons c cs)
  show ?case
  proof
    assume "includes_str (c # cs) p"
    then consider "startsWith (c # cs) p" | "includes_str cs p" by auto
    then show "\<exists>u w. c # cs = u @ p @ w"
    proof cases
      case 1
      then obtain w where "c # cs = p @ w" by (auto simp: startsWith_iff)
      then have "c # cs = [] @ p @ w" by simp
      then show ?thesis by blast
    next
      case 2
      then obtain u w where "cs = u @ p @ w" using Cons.IH by blast
      then have "c # cs = (c # u) @ p @ w" by simp
      then show ?thesis by blast
    qed
  next
    assume "\<exists>u w. c # cs = u @ p @ w"
    then obtain u w where e: "c # cs = u @ p @ w" by blast
    show "includes_str (c # cs) p"
    proof (cases u)
      case Nil
      then have "startsWith (c # cs) p" using e by (simp add: startsWith_iff)
      then show ?thesis by simp
    next
      case (Cons a u')
      then have "cs = u' @ p @ w" using e by simp
      then show ?thesis using Cons.IH by auto
    qed
  qed
qed

lemma count_append_ge: "countOccurrences v p \<le> countOccurrences (u @ v) p"
  by (induction u) simp_all

lemma count_two:
  assumes "p \<noteq> []" "us \<noteq> []" "startsWith (us @ p @ w) p"
  shows "2 \<le> countOccurrences (us @ p @ w) p"
proof -
  obtain c us' where us: "us = c # us'" using assms(2) by (cases us) auto
  have "1 \<le> countOccurrences (p @ w) p"
  proof -
    obtain a p' where "p = a # p'" using assms(1) by (cases p) auto
    then show ?thesis by (simp add: startsWith_def)
  qed
  also have "\<dots> \<le> countOccurrences (us' @ p @ w) p" by (rule count_append_ge)
  finally have "1 \<le> countOccurrences (us' @ p @ w) p" .
  then show ?thesis using assms(3) us by simp
qed

lemma one_occurrence:
  assumes one: "countOccurrences t p = 1" and ne: "p \<noteq> []"
    and a: "t = u1 @ p @ w1" and b: "t = u2 @ p @ w2"
  shows "u1 = u2"
proof -
  from a b have "u1 @ p @ w1 = u2 @ p @ w2" by simp
  then have "\<exists>us. (u1 = u2 @ us \<and> us @ p @ w1 = p @ w2) \<or> (u1 @ us = u2 \<and> p @ w1 = us @ p @ w2)"
    by (rule iffD1 [OF append_eq_append_conv2])
  then obtain us where
    "(u1 = u2 @ us \<and> us @ p @ w1 = p @ w2) \<or> (u1 @ us = u2 \<and> p @ w1 = us @ p @ w2)"
    by blast
  then consider (l) "u1 = u2 @ us" "us @ p @ w1 = p @ w2" | (r) "u1 @ us = u2" "p @ w1 = us @ p @ w2"
    by blast
  then show ?thesis
  proof cases
    case l
    show ?thesis
    proof (cases "us = []")
      case True
      then show ?thesis using l by simp
    next
      case False
      have "startsWith (us @ p @ w1) p" using l(2) by (auto simp: startsWith_iff)
      then have "2 \<le> countOccurrences (us @ p @ w1) p" using count_two ne False by blast
      also have "\<dots> \<le> countOccurrences (u2 @ us @ p @ w1) p" by (rule count_append_ge)
      finally have "2 \<le> countOccurrences t p" using a l(1) by simp
      then show ?thesis using one by simp
    qed
  next
    case r
    show ?thesis
    proof (cases "us = []")
      case True
      then show ?thesis using r by simp
    next
      case False
      have "startsWith (us @ p @ w2) p" using r(2) by (metis startsWith_iff)
      then have "2 \<le> countOccurrences (us @ p @ w2) p" using count_two ne False by blast
      also have "\<dots> \<le> countOccurrences (u1 @ us @ p @ w2) p" by (rule count_append_ge)
      finally have "2 \<le> countOccurrences t p" using b r(1) [symmetric] by simp
      then show ?thesis using one by simp
    qed
  qed
qed


lemma lazyUntil_Some:
  "lazyUntil stop s = Some g \<Longrightarrow> \<exists>v. s = g @ v \<and> stop v"
proof (induction s arbitrary: g)
  case Nil
  then show ?case by (auto split: if_splits)
next
  case (Cons c cs)
  show ?case
  proof (cases "stop (c # cs)")
    case True
    then have "g = []" using Cons.prems by simp
    then show ?thesis using True by simp
  next
    case False
    then obtain g' where g': "lazyUntil stop cs = Some g'" "g = c # g'"
      using Cons.prems by auto
    from Cons.IH [OF g'(1)] obtain v where "cs = g' @ v" "stop v" by blast
    then show ?thesis using g'(2) by auto
  qed
qed

lemma lazyUntil_cong:
  "(\<And>u v. s = u @ v \<Longrightarrow> stop v = stop' v) \<Longrightarrow> lazyUntil stop s = lazyUntil stop' s"
proof (induction s)
  case Nil
  then show ?case by simp
next
  case (Cons c cs)
  have here: "stop (c # cs) = stop' (c # cs)"
    using Cons.prems [of "[]" "c # cs"] by simp
  have "\<And>u v. cs = u @ v \<Longrightarrow> stop v = stop' v"
    using Cons.prems [of "c # u" v for u v] by simp
  then have "lazyUntil stop cs = lazyUntil stop' cs" by (rule Cons.IH)
  then show ?case using here by simp
qed

lemma lazyUntil_rule: "lazyUntil (\<lambda>s. startsWith s ''---'') s = upToFirstRule s"
  by (induction s) (simp_all add: startsWith_def)

lemma matchHere_Some:
  "matchHere spellings stop s = Some g \<Longrightarrow>
     \<exists>sp v. sp \<in> set spellings \<and> s = sp @ g @ v \<and> stop v"
proof (induction spellings)
  case Nil
  then show ?case by simp
next
  case (Cons sp spellings)
  show ?case
  proof (cases "startsWith s sp \<and> lazyUntil stop (drop (length sp) s) \<noteq> None")
    case True
    then obtain g' where g': "lazyUntil stop (drop (length sp) s) = Some g'" by auto
    then have "g' = g" using Cons.prems True by simp
    from lazyUntil_Some [OF g'] obtain v where v: "drop (length sp) s = g' @ v" "stop v" by blast
    have "s = sp @ drop (length sp) s"
      using True by (metis append_take_drop_id startsWith_def)
    then show ?thesis using v \<open>g' = g\<close> by auto
  next
    case False
    then have "matchHere spellings stop s = Some g"
      using Cons.prems by (auto split: if_splits option.splits)
    from Cons.IH [OF this] show ?thesis by auto
  qed
qed

lemma matchHere_None:
  "(\<And>sp. sp \<in> set spellings \<Longrightarrow> \<not> startsWith s sp) \<Longrightarrow> matchHere spellings stop s = None"
  by (induction spellings) simp_all

lemma matchFirst_Some:
  "matchFirst spellings stop s = Some g \<Longrightarrow>
     \<exists>u sp v. sp \<in> set spellings \<and> s = u @ sp @ g @ v \<and> stop v"
proof (induction s)
  case Nil
  from matchHere_Some [of spellings stop "[]" g] Nil
  obtain sp v where "sp \<in> set spellings" "[] = sp @ g @ v" "stop v" by auto
  then have "sp \<in> set spellings \<and> [] = [] @ sp @ g @ v \<and> stop v" by simp
  then show ?case by blast
next
  case (Cons c cs)
  show ?case
  proof (cases "matchHere spellings stop (c # cs)")
    case None
    then have "matchFirst spellings stop cs = Some g" using Cons.prems by simp
    from Cons.IH [OF this] obtain u sp v where
      "sp \<in> set spellings" "cs = u @ sp @ g @ v" "stop v" by blast
    then have "sp \<in> set spellings \<and> c # cs = (c # u) @ sp @ g @ v \<and> stop v" by simp
    then show ?thesis by blast
  next
    case (Some g')
    then have "g' = g" using Cons.prems by simp
    from matchHere_Some [OF Some] obtain sp v where
      "sp \<in> set spellings" "c # cs = sp @ g' @ v" "stop v" by blast
    then have "sp \<in> set spellings \<and> c # cs = [] @ sp @ g @ v \<and> stop v"
      using \<open>g' = g\<close> by simp
    then show ?thesis by blast
  qed
qed

lemma matchFirst_skip:
  assumes "\<And>u v sp. pre = u @ v \<Longrightarrow> v \<noteq> [] \<Longrightarrow> sp \<in> set spellings \<Longrightarrow> \<not> startsWith (v @ r) sp"
  shows "matchFirst spellings stop (pre @ r) = matchFirst spellings stop r"
  using assms
proof (induction pre)
  case Nil
  then show ?case by simp
next
  case (Cons c pre)
  have "matchHere spellings stop ((c # pre) @ r) = None"
    by (rule matchHere_None) (use Cons.prems [of "[]" "c # pre"] in auto)
  moreover have "matchFirst spellings stop (pre @ r) = matchFirst spellings stop r"
    by (rule Cons.IH) (use Cons.prems [of "c # u" v for u v] in auto)
  ultimately show ?case by simp
qed

lemma matchFirst_here:
  "matchHere spellings stop r = Some g \<Longrightarrow> matchFirst spellings stop r = Some g"
  by (cases r) simp_all

lemma lazyUntil_None:
  "lazyUntil stop s = None \<Longrightarrow> s = u @ v \<Longrightarrow> \<not> stop v"
proof (induction s arbitrary: u)
  case Nil
  then show ?case by (auto split: if_splits)
next
  case (Cons c cs)
  have no: "\<not> stop (c # cs)" and rest: "lazyUntil stop cs = None"
    using Cons.prems(1) by (auto split: if_splits)
  show ?case
  proof (cases u)
    case Nil
    then show ?thesis using Cons.prems(2) no by simp
  next
    case (Cons a u')
    then have "cs = u' @ v" using Cons.prems(2) by simp
    from Cons.IH [OF rest this] show ?thesis .
  qed
qed

lemma starts_includes:
  "startsWith v p \<Longrightarrow> t = u @ v \<Longrightarrow> includes_str t p"
  by (auto simp: startsWith_iff includes_str_iff)

lemma spelling_shape:
  assumes "sp \<in> set (headerSpellings name)"
  shows "(sp = ''**'' @ name @ ''**'') \<or> (sp = name @ '':'') \<or> sp = name"
  using assms by (auto simp: headerSpellings_def)

lemma no_header_no_section:
  assumes "\<not> includes_str t name"
  shows "matchFirst (headerSpellings name) stop t = None"
proof (rule ccontr)
  assume "matchFirst (headerSpellings name) stop t \<noteq> None"
  then obtain g where "matchFirst (headerSpellings name) stop t = Some g" by auto
  from matchFirst_Some [OF this] obtain u sp v where
    sp: "sp \<in> set (headerSpellings name)" and t: "t = u @ sp @ g @ v" by blast
  from spelling_shape [OF sp] consider
    "sp = ''**'' @ name @ ''**''" | "sp = name @ '':''" | "sp = name" by blast
  then have "\<exists>a b. t = a @ name @ b"
  proof cases
    case 1
    then have "t = (u @ ''**'') @ name @ (''**'' @ g @ v)" using t by simp
    then show ?thesis by blast
  next
    case 2
    then have "t = u @ name @ ('':'' @ g @ v)" using t by simp
    then show ?thesis by blast
  next
    case 3
    then have "t = u @ name @ (g @ v)" using t by simp
    then show ?thesis by blast
  qed
  then show False using assms by (simp add: includes_str_iff)
qed

lemma stop_unfold:
  "aheadOf [''**INFO GENIE**'', ''INFO GENIE'', ''---''] v
     = (startsWith v ''**INFO GENIE**'' \<or> startsWith v ''INFO GENIE'' \<or> startsWith v ''---'')"
  by (simp add: aheadOf_def)

lemma starred_includes:
  assumes "startsWith v (''**'' @ name @ ''**'')" "t = u @ v"
  shows "includes_str t name"
proof -
  from assms(1) obtain w where "v = (''**'' @ name @ ''**'') @ w"
    using startsWith_iff by blast
  then have "t = (u @ ''**'') @ name @ (''**'' @ w)" using assms(2) by simp
  then show ?thesis using includes_str_iff by blast
qed

lemma suffix_of_stars:
  assumes "''**'' = z @ us" "us \<noteq> []"
  shows "us = ''*'' \<or> us = ''**''"
  using assms by (auto simp: Cons_eq_append_conv)

lemma suffix_of_colon:
  assumes "'':'' = z @ us" "us \<noteq> []"
  shows "us = '':''"
  using assms by (auto simp: Cons_eq_append_conv)

lemma finance_section:
  assumes nI: "\<not> includes_str t ''INFO GENIE''"
    and once: "countOccurrences t ''MARKET OVERVIEW'' = 1"
    and t: "t = pre @ h @ tail"
    and h: "h = ''**MARKET OVERVIEW**'' \<or> h = ''MARKET OVERVIEW:''"
  shows "matchFirst (headerSpellings ''MARKET OVERVIEW'')
           (aheadOf [''**INFO GENIE**'', ''INFO GENIE'', ''---'']) t = upToFirstRule tail"
proof -
  let ?MO = "''MARKET OVERVIEW''"
  let ?sps = "headerSpellings ?MO"
  let ?stop = "aheadOf [''**INFO GENIE**'', ''INFO GENIE'', ''---'']"
  obtain x y where hxy: "h = x @ ?MO @ y"
    and xy: "(x = ''**'' \<and> y = ''**'') \<or> (x = [] \<and> y = '':'')"
  proof -
    from h consider "h = ''**MARKET OVERVIEW**''" | "h = ''MARKET OVERVIEW:''" by blast
    then show ?thesis
    proof cases
      case 1
      then have "h = ''**'' @ ?MO @ ''**''" by simp
      then show ?thesis using that by blast
    next
      case 2
      then have "h = [] @ ?MO @ '':''" by simp
      then show ?thesis using that by blast
    qed
  qed
  have occ: "t = (pre @ x) @ ?MO @ (y @ tail)"
    using t hxy by simp
  have ne: "?MO \<noteq> []" by simp
  have noGenie: "\<not> startsWith v ''INFO GENIE''" "\<not> startsWith v ''**INFO GENIE**''"
    if "t = u @ v" for u v
  proof -
    show "\<not> startsWith v ''INFO GENIE''"
      using starts_includes [OF _ that] nI by blast
    have "\<not> startsWith v (''**'' @ ''INFO GENIE'' @ ''**'')"
      using starred_includes [OF _ that] nI by blast
    then show "\<not> startsWith v ''**INFO GENIE**''" by simp
  qed
  have stop_tail: "?stop v = startsWith v ''---''" if "tail = u @ v" for u v
  proof -
    have "t = (pre @ h @ u) @ v" using t that by simp
    from noGenie [OF this] show ?thesis by (simp only: stop_unfold) simp
  qed
  have lazy: "lazyUntil ?stop tail = upToFirstRule tail"
  proof -
    have "lazyUntil ?stop tail = lazyUntil (\<lambda>s. startsWith s ''---'') tail"
      by (rule lazyUntil_cong) (rule stop_tail)
    then show ?thesis by (simp only: lazyUntil_rule)
  qed
  have skip: "matchFirst ?sps ?stop (pre @ (h @ tail)) = matchFirst ?sps ?stop (h @ tail)"
  proof (rule matchFirst_skip)
    fix u v sp
    assume pre: "pre = u @ v" and v: "v \<noteq> []" and sp: "sp \<in> set ?sps"
    show "\<not> startsWith (v @ h @ tail) sp"
    proof
      assume "startsWith (v @ h @ tail) sp"
      then obtain w where w: "v @ h @ tail = sp @ w" using startsWith_iff by blast
      obtain a b where sab: "sp = a @ ?MO @ b"
        and ab: "(a = ''**'' \<and> b = ''**'') \<or> a = []"
      proof -
        from spelling_shape [OF sp] consider
          "sp = ''**'' @ ?MO @ ''**''" | "sp = ?MO @ '':''" | "sp = ?MO" by blast
        then show ?thesis
        proof cases
          case 1
          then show ?thesis using that by blast
        next
          case 2
          then have "sp = [] @ ?MO @ '':''" by simp
          then show ?thesis using that by blast
        next
          case 3
          then have "sp = [] @ ?MO @ []" by simp
          then show ?thesis using that by blast
        qed
      qed
      have t2: "t = (u @ a) @ ?MO @ (b @ w)"
        using t pre w sab by simp
      from one_occurrence [OF once ne t2 occ] have pos: "u @ a = pre @ x" .
      then have a: "a = v @ x" using pre by simp
      with v ab have stars: "a = ''**''" "b = ''**''" by auto
      from a stars v xy have "x = []" "y = '':''" "v = ''**''"
        by (auto simp: Cons_eq_append_conv)
      moreover have "b @ w = y @ tail"
        using t2 occ pos by simp
      ultimately show False using stars by simp
    qed
  qed
  show ?thesis
  proof (cases "upToFirstRule tail")
    case (Some body)
    have "matchHere ?sps ?stop (h @ tail) = Some body"
      using h lazy Some by (auto simp: headerSpellings_def startsWith_def)
    then have "matchFirst ?sps ?stop (h @ tail) = Some body"
      by (rule matchFirst_here)
    then show ?thesis using skip t Some by simp
  next
    case None
    have "matchFirst ?sps ?stop t = None"
    proof (rule ccontr)
      assume "matchFirst ?sps ?stop t \<noteq> None"
      then obtain g where "matchFirst ?sps ?stop t = Some g" by auto
      from matchFirst_Some [OF this] obtain u sp v where
        sp: "sp \<in> set ?sps" and tu: "t = u @ sp @ g @ v" and stop: "?stop v" by blast
      obtain a b where sab: "sp = a @ ?MO @ b"
      proof -
        from spelling_shape [OF sp] consider
          "sp = ''**'' @ ?MO @ ''**''" | "sp = ?MO @ '':''" | "sp = ?MO" by blast
        then show ?thesis
        proof cases
          case 1
          then show ?thesis using that by blast
        next
          case 2
          then have "sp = [] @ ?MO @ '':''" by simp
          then show ?thesis using that by blast
        next
          case 3
          then have "sp = [] @ ?MO @ []" by simp
          then show ?thesis using that by blast
        qed
      qed
      have t2: "t = (u @ a) @ ?MO @ (b @ g @ v)"
        using tu sab by simp
      from one_occurrence [OF once ne t2 occ] have pos: "u @ a = pre @ x" .
      have "y @ tail = (b @ g) @ v"
        using t2 occ pos by simp
      then have "\<exists>us. (y = (b @ g) @ us \<and> us @ tail = v) \<or> (y @ us = b @ g \<and> tail = us @ v)"
        by (rule iffD1 [OF append_eq_append_conv2])
      then obtain us where
        us: "(y = (b @ g) @ us \<and> us @ tail = v) \<or> (y @ us = b @ g \<and> tail = us @ v)"
        by blast
      have inTail: "\<not> ?stop v'" if "tail = u' @ v'" for u' v'
        using lazyUntil_None [OF _ that, of ?stop] lazy None by simp
      from us show False
      proof
        assume "y @ us = b @ g \<and> tail = us @ v"
        then show False using inTail stop by blast
      next
        assume c: "y = (b @ g) @ us \<and> us @ tail = v"
        show False
        proof (cases "us = []")
          case True
          then have "tail = [] @ v" using c by simp
          then show False using inTail stop by blast
        next
          case False
          have shape: "us = ''*'' \<or> us = ''**'' \<or> us = '':''"
            using xy c False suffix_of_stars [of "b @ g" us] suffix_of_colon [of "b @ g" us]
            by auto
          have tv: "t = (pre @ x @ ?MO @ (b @ g)) @ v"
            using occ c by simp
          from noGenie [OF tv] stop have dash: "startsWith v ''---''"
            by (simp only: stop_unfold) simp
          from shape c have "v = ''*'' @ tail \<or> v = ''**'' @ tail \<or> v = '':'' @ tail"
            by auto
          then show False using dash by (auto simp: startsWith_def)
        qed
      qed
    qed
    then show ?thesis using None by simp
  qed
qed

text \<open>
  C5 (a text with the market-overview header alone: the other three fields are absent
  and the market overview runs to the end of the text). The lookahead that ends the
  market overview has no alternative for the end of the text: with no horizontal rule
  after the header the expression does not match, in either spelling and in either
  copy of the parser, and the field is absent.
\<close>

theorem market_overview_not_read_to_end:
  "sec_finance (parseAutomatedSummarySections ''MARKET OVERVIEW: stocks rose'') = None
   \<and> sec_finance (parseAutomatedSummarySections ''**MARKET OVERVIEW** stocks rose'') = None
   \<and> sec_finance (parseSummarySections ''MARKET OVERVIEW: stocks rose'') = None
   \<and> sec_finance (parseSummarySections ''**MARKET OVERVIEW** stocks rose'') = None"
  by code_simp

text \<open>
  C5 as amended: for every text in which none of the other three header names occurs
  and the market-overview header occurs once, in the emphasised spelling or with the
  colon, both copies of the parser return the news, the trends and the forward-looking
  field absent, and as market overview the text from the header to the first
  horizontal rule \<^verbatim>\<open>---\<close> after it, trimmed; without a rule after the header the
  market overview is absent as well.
\<close>

theorem only_market_overview_header:
  assumes "\<not> includes_str t ''NEWS HIGHLIGHTS''"
    and "\<not> includes_str t ''TRENDING TOPICS''"
    and "\<not> includes_str t ''INFO GENIE''"
    and "countOccurrences t ''MARKET OVERVIEW'' = 1"
    and "t = pre @ h @ tail"
    and "h = ''**MARKET OVERVIEW**'' \<or> h = ''MARKET OVERVIEW:''"
  shows "parseAutomatedSummarySections t
           = \<lparr>sec_news = None, sec_trends = None,
              sec_finance = map_option trim (upToFirstRule tail), sec_insights = None\<rparr>
       \<and> parseSummarySections t = parseAutomatedSummarySections t"
proof -
  have "matchFirst (headerSpellings ''NEWS HIGHLIGHTS'')
          (aheadOf [''**TRENDING TOPICS**'', ''TRENDING TOPICS'', ''---'']) t = None"
    using assms(1) by (rule no_header_no_section)
  moreover have "matchFirst (headerSpellings ''TRENDING TOPICS'')
          (aheadOf [''**MARKET OVERVIEW**'', ''MARKET OVERVIEW'', ''---'']) t = None"
    using assms(2) by (rule no_header_no_section)
  moreover have "matchFirst (headerSpellings ''INFO GENIE'') atEnd t = None"
    using assms(3) by (rule no_header_no_section)
  moreover have "matchFirst (headerSpellings ''MARKET OVERVIEW'')
          (aheadOf [''**INFO GENIE**'', ''INFO GENIE'', ''---'']) t = upToFirstRule tail"
    using assms(3-6) by (rule finance_section)
  ultimately show ?thesis
    by (simp only: parseAutomatedSummarySections_def parseSummarySections_def) simp
qed

theorem only_market_overview_header_witness:
  "parseAutomatedSummarySections ''Markets. MARKET OVERVIEW: stocks rose --- end''
     = \<lparr>sec_news = None, sec_trends = None, sec_finance = Some ''stocks rose'',
        sec_insights = None\<rparr>
   \<and> parseAutomatedSummarySections ''**MARKET OVERVIEW** stocks rose''
     = \<lparr>sec_news = None, sec_trends = None, sec_finance = None, sec_insights = None\<rparr>"
proof -
  let ?t1 = "''Markets. MARKET OVERVIEW: stocks rose --- end''"
  let ?t2 = "''**MARKET OVERVIEW** stocks rose''"
  have a1: "\<not> includes_str ?t1 ''NEWS HIGHLIGHTS''" "\<not> includes_str ?t1 ''TRENDING TOPICS''"
    "\<not> includes_str ?t1 ''INFO GENIE''" "countOccurrences ?t1 ''MARKET OVERVIEW'' = 1"
    by code_simp+
  have a2: "\<not> includes_str ?t2 ''NEWS HIGHLIGHTS''" "\<not> includes_str ?t2 ''TRENDING TOPICS''"
    "\<not> includes_str ?t2 ''INFO GENIE''" "countOccurrences ?t2 ''MARKET OVERVIEW'' = 1"
    by code_simp+
  have s1: "?t1 = ''Markets. '' @ ''MARKET OVERVIEW:'' @ '' stocks rose --- end''"
    by simp
  have s2: "?t2 = [] @ ''**MARKET OVERVIEW**'' @ '' stocks rose''"
    by simp
  have r1: "map_option trim (upToFirstRule '' stocks rose --- end'') = Some ''stocks rose''"
    by code_simp
  have r2: "map_option trim (upToFirstRule '' stocks rose'') = None"
    by code_simp
  from only_market_overview_header [OF a1 s1] only_market_overview_header [OF a2 s2] r1 r2
  show ?thesis by simp
qed

end
